theory Spec2Isabelle
  imports Complex_Main
begin

section \<open>The ChebConv2 layer of spektral/layers/convolutional/cheb\_conv2.py\<close>

text \<open>
  The layer is a Python class whose methods read and write attributes of \<open>self\<close> and call
  helpers that are not part of the file: the tensor products \<open>KB.dot\<close> and
  \<open>ops.modal_dot\<close>, the tensor arithmetic behind \<open>2 * t\<close>, \<open>-\<close>, \<open>+=\<close> and \<open>*=\<close>,
  \<open>KB.bias_add\<close>, \<open>add_weight\<close> and the utility \<open>chebyshev_reparam_weights\<close>.
  They are taken as parameters: a record of operations over an arbitrary tensor type \<open>'t\<close>, each of which may raise. Every
  statement about \<open>call\<close> and \<open>build\<close> that quantifies over the record holds for whatever
  these helpers compute; tensor entries and their floating-point arithmetic are never
  looked into.
\<close>

subsection \<open>Errors, helper operations, layer attributes\<close>

datatype error =
    AssertionError
  | ValueError
  | IndexError
  | AttributeError
  | UnboundLocalError
  | BackendError string

text \<open>A dimension of a Keras shape is an integer or \<open>None\<close>.\<close>

type_synonym dim = "int option"

record 't backend =
  dot :: "'t \<Rightarrow> 't \<Rightarrow> error + 't"
  modal_dot :: "'t \<Rightarrow> 't \<Rightarrow> error + 't"
  chebyshev_reparam_weights :: "int \<Rightarrow> 't \<Rightarrow> int \<Rightarrow> error + 't"
  scalar_mul :: "int \<Rightarrow> 't \<Rightarrow> error + 't"
  tsub :: "'t \<Rightarrow> 't \<Rightarrow> error + 't"
  tadd :: "'t \<Rightarrow> 't \<Rightarrow> error + 't"
  tmul :: "'t \<Rightarrow> 't \<Rightarrow> error + 't"
  bias_add :: "'t \<Rightarrow> 't \<Rightarrow> error + 't"
  add_weight :: "dim list \<Rightarrow> string \<Rightarrow> error + 't"
  shape_str :: "'t \<Rightarrow> string"

text \<open>
  The attributes of a layer object. \<open>kernel\<close> and \<open>bias\<close> do not exist before \<open>build\<close>
  assigns them (\<open>None\<close> here; reading them then raises AttributeError). The initializer,
  regularizer and constraint settings are only handed on to \<open>add_weight\<close> and are part of
  that parameter.
\<close>

record 't layer =
  channels :: int
  K :: int
  activation :: "'t \<Rightarrow> error + 't"
  use_bias :: bool
  kernel :: "'t option"
  bias :: "'t option"
  built :: bool

text \<open>
  What a method can change: the layer object, the lines printed, and (as a ghost record of
  the execution) the argument triples of every invocation of
  \<open>chebyshev_reparam_weights\<close>, in order.
\<close>

record 't world =
  self :: "'t layer"
  reparam_calls :: "(int \<times> 't \<times> int) list"
  stdout :: "string list"

subsection \<open>Statements as state transformers that may raise\<close>

type_synonym ('t, 'a) prog = "'t world \<Rightarrow> (error + 'a) \<times> 't world"

definition ret :: "'a \<Rightarrow> ('t, 'a) prog" where
  "ret v = (\<lambda>w. (Inr v, w))"

definition throw :: "error \<Rightarrow> ('t, 'a) prog" where
  "throw e = (\<lambda>w. (Inl e, w))"

definition lift :: "error + 'a \<Rightarrow> ('t, 'a) prog" where
  "lift r = (\<lambda>w. (r, w))"

definition bindP :: "('t, 'a) prog \<Rightarrow> ('a \<Rightarrow> ('t, 'b) prog) \<Rightarrow> ('t, 'b) prog" where
  "bindP m f = (\<lambda>w. case m w of (Inl e, w') \<Rightarrow> (Inl e, w') | (Inr v, w') \<Rightarrow> f v w')"

definition attr :: "('t layer \<Rightarrow> 'a) \<Rightarrow> ('t, 'a) prog" where
  "attr f = (\<lambda>w. (Inr (f (self w)), w))"

definition attr_opt :: "('t layer \<Rightarrow> 'a option) \<Rightarrow> ('t, 'a) prog" where
  "attr_opt f = (\<lambda>w. case f (self w) of None \<Rightarrow> (Inl AttributeError, w) | Some v \<Rightarrow> (Inr v, w))"

definition set_attr :: "('t layer \<Rightarrow> 't layer) \<Rightarrow> ('t, unit) prog" where
  "set_attr upd = (\<lambda>w. (Inr (), w\<lparr>self := upd (self w)\<rparr>))"

definition print_line :: "string \<Rightarrow> ('t, unit) prog" where
  "print_line s = (\<lambda>w. (Inr (), w\<lparr>stdout := stdout w @ [s]\<rparr>))"

text \<open>\<open>for k in ks: s = body k s\<close>, stopping at the first exception.\<close>

fun for_loop :: "(nat \<Rightarrow> 's \<Rightarrow> ('t, 's) prog) \<Rightarrow> nat list \<Rightarrow> 's \<Rightarrow> ('t, 's) prog" where
  "for_loop body [] s = ret s"
| "for_loop body (k # ks) s = bindP (body k s) (for_loop body ks)"

subsection \<open>The constructor and build\<close>

text \<open>
  \<open>__init__\<close> (lines 44-72) stores its arguments and checks none of them. A new Keras
  layer is not built.
\<close>

definition init :: "int \<Rightarrow> int \<Rightarrow> ('t \<Rightarrow> error + 't) \<Rightarrow> bool \<Rightarrow> 't layer" where
  "init channels0 K0 activation0 use_bias0 =
     \<lparr>channels = channels0, K = K0, activation = activation0, use_bias = use_bias0,
      kernel = None, bias = None, built = False\<rparr>"

definition new_world :: "'t layer \<Rightarrow> 't world" where
  "new_world l = \<lparr>self = l, reparam_calls = [], stdout = []\<rparr>"

text \<open>\<open>shape[-1]\<close> of a tuple.\<close>

definition last_dim :: "dim list \<Rightarrow> error + dim" where
  "last_dim shp = (case shp of [] \<Rightarrow> Inl IndexError | _ \<Rightarrow> Inr (last shp))"

text \<open>\<open>build\<close> (lines 74-97).\<close>

definition build :: "'t backend \<Rightarrow> dim list list \<Rightarrow> ('t, unit) prog" where
  "build be input_shape =
     (if \<not> 2 \<le> length input_shape then throw AssertionError
      else
        bindP (lift (last_dim (input_shape ! 0))) (\<lambda>input_dim.
        bindP (attr K) (\<lambda>k0.
        bindP (attr channels) (\<lambda>c0.
        bindP (lift (add_weight be [Some k0, input_dim, Some c0] ''kernel'')) (\<lambda>kern.
        bindP (set_attr (\<lambda>l. l\<lparr>kernel := Some kern\<rparr>)) (\<lambda>_.
        bindP (attr_opt kernel) (\<lambda>kern'.
        bindP (print_line (shape_str be kern')) (\<lambda>_.
        bindP (attr use_bias) (\<lambda>ub.
        bindP (if ub then
                 bindP (attr channels) (\<lambda>c1.
                 bindP (lift (add_weight be [Some c1] ''bias'')) (\<lambda>b.
                 set_attr (\<lambda>l. l\<lparr>bias := Some b\<rparr>)))
               else ret ()) (\<lambda>_.
        bindP (print_line ''HALLO CHEBCONV 2'') (\<lambda>_.
        set_attr (\<lambda>l. l\<lparr>built := True\<rparr>))))))))))))"

subsection \<open>call\<close>

text \<open>The expression \<open>chebyshev_reparam_weights(self.K, self.kernel, k)\<close>.\<close>

definition reparam_self :: "'t backend \<Rightarrow> int \<Rightarrow> ('t, 't) prog" where
  "reparam_self be k =
     bindP (attr K) (\<lambda>k0.
     bindP (attr_opt kernel) (\<lambda>w0.
       (\<lambda>w. (chebyshev_reparam_weights be k0 w0 k,
             w\<lparr>reparam_calls := reparam_calls w @ [(k0, w0, k)]\<rparr>))))"

text \<open>
  The body of the loop at lines 109-112 on the local variables \<open>(T_0, T_1, output)\<close>.
  \<open>T_1\<close> is bound only by line 106, so it is optional here and reading it unbound raises.
\<close>

definition cheb_step ::
  "'t backend \<Rightarrow> 't \<Rightarrow> nat \<Rightarrow> 't \<times> 't option \<times> 't \<Rightarrow> ('t, 't \<times> 't option \<times> 't) prog" where
  "cheb_step be a k = (\<lambda>(T_0, T_1o, output).
     case T_1o of
       None \<Rightarrow> throw UnboundLocalError
     | Some T_1 \<Rightarrow>
         bindP (lift (modal_dot be a T_1)) (\<lambda>m.
         bindP (lift (scalar_mul be 2 m)) (\<lambda>m2.
         bindP (lift (tsub be m2 T_0)) (\<lambda>T_2.
         bindP (reparam_self be (int k)) (\<lambda>wk.
         bindP (lift (dot be T_2 wk)) (\<lambda>d.
         bindP (lift (tadd be output d)) (\<lambda>output'.
         ret (T_1, Some T_2, output'))))))))"

text \<open>Lines 102-112: the accumulated output before bias, mask and activation.\<close>

definition call_terms :: "'t backend \<Rightarrow> 't \<Rightarrow> 't \<Rightarrow> ('t, 't) prog" where
  "call_terms be x a =
     bindP (reparam_self be 0) (\<lambda>w0.
     bindP (lift (dot be x w0)) (\<lambda>output.
     bindP (attr K) (\<lambda>k1.
     bindP (if 1 < k1 then
              bindP (lift (modal_dot be a x)) (\<lambda>T_1.
              bindP (reparam_self be 1) (\<lambda>w1.
              bindP (lift (dot be T_1 w1)) (\<lambda>d.
              bindP (lift (tadd be output d)) (\<lambda>output'.
              ret (Some T_1, output')))))
            else ret (None, output)) (\<lambda>(T_1o, output).
     bindP (attr K) (\<lambda>k2.
     bindP (for_loop (cheb_step be a) [2..<nat k2] (x, T_1o, output)) (\<lambda>(T_0, T_1o, output).
     ret output))))))"

text \<open>\<open>x, a = inputs\<close>.\<close>

definition unpack2 :: "'a list \<Rightarrow> error + 'a \<times> 'a" where
  "unpack2 xs = (case xs of [x, a] \<Rightarrow> Inr (x, a) | _ \<Rightarrow> Inl ValueError)"

text \<open>Lines 100-117: everything before the activation.\<close>

definition call_masked :: "'t backend \<Rightarrow> 't list \<Rightarrow> 't list option \<Rightarrow> ('t, 't) prog" where
  "call_masked be inputs mask0 =
     bindP (lift (unpack2 inputs)) (\<lambda>(x, a).
     bindP (call_terms be x a) (\<lambda>output.
     bindP (attr use_bias) (\<lambda>ub.
     bindP (if ub then
              bindP (attr_opt bias) (\<lambda>b. lift (bias_add be output b))
            else ret output) (\<lambda>output.
     (case mask0 of
        None \<Rightarrow> ret output
      | Some ms \<Rightarrow>
          (case ms of
             [] \<Rightarrow> throw IndexError
           | m0 # _ \<Rightarrow> lift (tmul be output m0)))))))"

text \<open>\<open>call\<close> (lines 99-120).\<close>

definition call :: "'t backend \<Rightarrow> 't list \<Rightarrow> 't list option \<Rightarrow> ('t, 't) prog" where
  "call be inputs mask0 =
     bindP (call_masked be inputs mask0) (\<lambda>output.
     bindP (attr activation) (\<lambda>act.
     lift (act output)))"


subsection \<open>The expansion as the specification words it\<close>

text \<open>
  The terms of the specification, over the same helper operations and with the first
  failure propagated: \<open>T_0 = x\<close>, \<open>T_1 = a \<times> x\<close>,
  \<open>T_k = 2 \<cdot> (a \<times> T_{k-1}) - T_{k-2}\<close>; term \<open>k\<close> is
  \<open>T_k \<cdot> reparam(K, W, k)\<close>; \<open>cheb_sum n\<close> adds the terms \<open>0 .. n\<close> from the left.
\<close>

definition bindE :: "error + 'a \<Rightarrow> ('a \<Rightarrow> error + 'b) \<Rightarrow> error + 'b" where
  "bindE r f = (case r of Inl e \<Rightarrow> Inl e | Inr v \<Rightarrow> f v)"

fun cheb_T :: "'t backend \<Rightarrow> 't \<Rightarrow> 't \<Rightarrow> nat \<Rightarrow> error + 't" where
  "cheb_T be a x 0 = Inr x"
| "cheb_T be a x (Suc 0) = modal_dot be a x"
| "cheb_T be a x (Suc (Suc k)) =
     bindE (cheb_T be a x (Suc k)) (\<lambda>t1.
     bindE (cheb_T be a x k) (\<lambda>t0.
     bindE (modal_dot be a t1) (\<lambda>m.
     bindE (scalar_mul be 2 m) (\<lambda>m2.
     tsub be m2 t0))))"

definition cheb_term :: "'t backend \<Rightarrow> int \<Rightarrow> 't \<Rightarrow> 't \<Rightarrow> 't \<Rightarrow> nat \<Rightarrow> error + 't" where
  "cheb_term be k0 w0 a x k =
     bindE (cheb_T be a x k) (\<lambda>t.
     bindE (chebyshev_reparam_weights be k0 w0 (int k)) (\<lambda>wk.
     dot be t wk))"

fun cheb_sum :: "'t backend \<Rightarrow> int \<Rightarrow> 't \<Rightarrow> 't \<Rightarrow> 't \<Rightarrow> nat \<Rightarrow> error + 't" where
  "cheb_sum be k0 w0 a x 0 = cheb_term be k0 w0 a x 0"
| "cheb_sum be k0 w0 a x (Suc n) =
     bindE (cheb_sum be k0 w0 a x n) (\<lambda>s.
     bindE (cheb_term be k0 w0 a x (Suc n)) (\<lambda>t.
     tadd be s t))"

subsection \<open>Instances of the helper operations\<close>

text \<open>
  Modelled from the spec: the helper operations themselves are missing from the source,
  so the instances follow the shapes and products of sections 3, 4.3 and 6 of the
  specification. The first computes with shapes only, the second with dense integer
  matrices in exact arithmetic (single mode: \<open>x\<close> is \<open>N \<times> F_in\<close>, the operator \<open>N \<times> N\<close>),
  the third with dense matrices of floating-point values.
\<close>

paragraph \<open>Shapes\<close>

text \<open>Broadcasting of two shapes, aligned at their last dimension; both reversed here.\<close>

fun bcast_rev :: "nat list \<Rightarrow> nat list \<Rightarrow> nat list option" where
  "bcast_rev [] t = Some t"
| "bcast_rev (d # s) [] = Some (d # s)"
| "bcast_rev (d # s) (e # t) =
     (if d = e \<or> e = 1 then map_option (Cons d) (bcast_rev s t)
      else if d = 1 then map_option (Cons e) (bcast_rev s t)
      else None)"

definition broadcast :: "nat list \<Rightarrow> nat list \<Rightarrow> error + nat list" where
  "broadcast s t =
     (case bcast_rev (rev s) (rev t) of
        None \<Rightarrow> Inl (BackendError ''incompatible shapes'')
      | Some r \<Rightarrow> Inr (rev r))"

text \<open>\<open>KB.dot\<close> of a tensor of rank at least 2 with a matrix.\<close>

definition sh_dot :: "nat list \<Rightarrow> nat list \<Rightarrow> error + nat list" where
  "sh_dot s w =
     (case w of
        [f, c] \<Rightarrow>
          (if 2 \<le> length s \<and> last s = f then Inr (butlast s @ [c])
           else Inl (BackendError ''dot: inner dimensions''))
      | _ \<Rightarrow> Inl (BackendError ''dot: rank''))"

text \<open>\<open>ops.modal_dot\<close> in single, batch and mixed mode.\<close>

definition sh_modal_dot :: "nat list \<Rightarrow> nat list \<Rightarrow> error + nat list" where
  "sh_modal_dot a x =
     (case (a, x) of
        ([n, m], [m', f]) \<Rightarrow>
          (if m = m' then Inr [n, f] else Inl (BackendError ''modal_dot: inner dimensions''))
      | ([b, n, m], [b', m', f]) \<Rightarrow>
          (if b = b' \<and> m = m' then Inr [b, n, f]
           else Inl (BackendError ''modal_dot: inner dimensions''))
      | ([n, m], [b, m', f]) \<Rightarrow>
          (if m = m' then Inr [b, n, f] else Inl (BackendError ''modal_dot: inner dimensions''))
      | _ \<Rightarrow> Inl (BackendError ''modal_dot: rank''))"

definition sh_bias_add :: "nat list \<Rightarrow> nat list \<Rightarrow> error + nat list" where
  "sh_bias_add s b =
     (case b of
        [c] \<Rightarrow> (if s \<noteq> [] \<and> last s = c then Inr s else Inl (BackendError ''bias_add''))
      | _ \<Rightarrow> Inl (BackendError ''bias_add: rank''))"

text \<open>
  The reparameterization maps the \<open>(K, F_in, F_out)\<close> tensor and an order
  \<open>0 \<le> order < K\<close> to an \<open>(F_in, F_out)\<close> matrix.
\<close>

definition sh_reparam :: "int \<Rightarrow> nat list \<Rightarrow> int \<Rightarrow> error + nat list" where
  "sh_reparam k0 w k =
     (case w of
        [k', f, c] \<Rightarrow>
          (if int k' = k0 \<and> 0 \<le> k \<and> k < k0 then Inr [f, c]
           else Inl (BackendError ''reparam: order''))
      | _ \<Rightarrow> Inl (BackendError ''reparam: rank''))"

definition known_dim :: "dim \<Rightarrow> bool" where
  "known_dim d = (case d of None \<Rightarrow> False | Some v \<Rightarrow> 0 \<le> v)"

definition sh_add_weight :: "dim list \<Rightarrow> string \<Rightarrow> error + nat list" where
  "sh_add_weight dims name =
     (if list_all known_dim dims then Inr (map (\<lambda>d. nat (the d)) dims) else Inl ValueError)"

definition digit_char :: "nat \<Rightarrow> char" where
  "digit_char d = char_of (48 + d)"

fun show_nat :: "nat \<Rightarrow> string" where
  "show_nat n = (if n < 10 then [digit_char n] else show_nat (n div 10) @ [digit_char (n mod 10)])"

fun commas :: "string list \<Rightarrow> string" where
  "commas [] = []"
| "commas [s] = s"
| "commas (s # t # ts) = s @ '', '' @ commas (t # ts)"

definition show_shape :: "nat list \<Rightarrow> string" where
  "show_shape s = ''('' @ commas (map show_nat s) @ '')''"

definition shape_be :: "nat list backend" where
  "shape_be =
     \<lparr>dot = sh_dot, modal_dot = sh_modal_dot, chebyshev_reparam_weights = sh_reparam,
      scalar_mul = (\<lambda>c s. Inr s), tsub = broadcast, tadd = broadcast, tmul = broadcast,
      bias_add = sh_bias_add, add_weight = sh_add_weight, shape_str = show_shape\<rparr>"

paragraph \<open>Dense integer matrices\<close>

datatype tensor = Vec "int list" | Mat "int list list" | Cube "int list list list"

definition ncols :: "int list list \<Rightarrow> nat" where
  "ncols m = (case m of [] \<Rightarrow> 0 | r # _ \<Rightarrow> length r)"

definition rect :: "nat \<Rightarrow> int list list \<Rightarrow> bool" where
  "rect n m = list_all (\<lambda>r. length r = n) m"

definition matmul :: "int list list \<Rightarrow> int list list \<Rightarrow> int list list" where
  "matmul a b =
     map (\<lambda>r. map (\<lambda>j. sum_list (map2 (\<lambda>v brow. v * brow ! j) r b)) [0..<ncols b]) a"

definition dn_dot :: "tensor \<Rightarrow> tensor \<Rightarrow> error + tensor" where
  "dn_dot x w =
     (case (x, w) of
        (Mat a, Mat b) \<Rightarrow>
          (if rect (length b) a \<and> rect (ncols b) b then Inr (Mat (matmul a b))
           else Inl (BackendError ''dot: inner dimensions''))
      | _ \<Rightarrow> Inl (BackendError ''dot: rank''))"

definition dn_scalar_mul :: "int \<Rightarrow> tensor \<Rightarrow> error + tensor" where
  "dn_scalar_mul c t =
     Inr (case t of
            Vec v \<Rightarrow> Vec (map ((*) c) v)
          | Mat m \<Rightarrow> Mat (map (map ((*) c)) m)
          | Cube q \<Rightarrow> Cube (map (map (map ((*) c))) q))"

text \<open>Entrywise operations on two matrices of one shape.\<close>

definition dn_zip :: "(int \<Rightarrow> int \<Rightarrow> int) \<Rightarrow> tensor \<Rightarrow> tensor \<Rightarrow> error + tensor" where
  "dn_zip f s t =
     (case (s, t) of
        (Mat a, Mat b) \<Rightarrow>
          (if map length a = map length b then Inr (Mat (map2 (map2 f) a b))
           else Inl (BackendError ''shapes differ''))
      | _ \<Rightarrow> Inl (BackendError ''rank''))"

text \<open>
  \<open>output * mask\<close>: the mask has one row per node, holding either one entry (its
  missing trailing dimension, broadcast along the row) or one entry per channel.
\<close>

definition dn_mul :: "tensor \<Rightarrow> tensor \<Rightarrow> error + tensor" where
  "dn_mul s t =
     (case (s, t) of
        (Mat a, Mat m) \<Rightarrow>
          (if length a = length m \<and>
              list_all (\<lambda>(r, mr). length mr = 1 \<or> length mr = length r) (zip a m)
           then Inr (Mat (map2 (\<lambda>r mr. if length mr = 1 then map (\<lambda>v. v * hd mr) r
                                          else map2 (*) r mr) a m))
           else Inl (BackendError ''shapes differ''))
      | _ \<Rightarrow> Inl (BackendError ''rank''))"

definition dn_bias_add :: "tensor \<Rightarrow> tensor \<Rightarrow> error + tensor" where
  "dn_bias_add s b =
     (case (s, b) of
        (Mat a, Vec v) \<Rightarrow>
          (if rect (length v) a then Inr (Mat (map (\<lambda>r. map2 (+) r v) a))
           else Inl (BackendError ''bias_add''))
      | _ \<Rightarrow> Inl (BackendError ''bias_add: rank''))"

text \<open>Weights of a known shape, filled with zeros.\<close>

definition dn_add_weight :: "dim list \<Rightarrow> string \<Rightarrow> error + tensor" where
  "dn_add_weight dims name =
     (if \<not> list_all known_dim dims then Inl ValueError
      else case map (\<lambda>d. nat (the d)) dims of
             [c] \<Rightarrow> Inr (Vec (replicate c 0))
           | [f, c] \<Rightarrow> Inr (Mat (replicate f (replicate c 0)))
           | [k, f, c] \<Rightarrow> Inr (Cube (replicate k (replicate f (replicate c 0))))
           | _ \<Rightarrow> Inl ValueError)"

definition dn_shape :: "tensor \<Rightarrow> nat list" where
  "dn_shape t =
     (case t of
        Vec v \<Rightarrow> [length v]
      | Mat m \<Rightarrow> [length m, ncols m]
      | Cube q \<Rightarrow> [length q, (case q of [] \<Rightarrow> 0 | m # _ \<Rightarrow> length m),
                   (case q of [] \<Rightarrow> 0 | m # _ \<Rightarrow> ncols m)])"

text \<open>
  The formula of the reparameterization is left open by the specification, so the dense
  instance takes it as an argument. \<open>slice_reparam\<close>, used for concrete runs, returns slice
  \<open>order\<close> of the weight tensor.
\<close>

definition dense :: "(int \<Rightarrow> tensor \<Rightarrow> int \<Rightarrow> error + tensor) \<Rightarrow> tensor backend" where
  "dense reparam =
     \<lparr>dot = dn_dot, modal_dot = dn_dot, chebyshev_reparam_weights = reparam,
      scalar_mul = dn_scalar_mul, tsub = dn_zip (-), tadd = dn_zip (+), tmul = dn_mul,
      bias_add = dn_bias_add, add_weight = dn_add_weight,
      shape_str = (\<lambda>t. show_shape (dn_shape t))\<rparr>"

definition slice_reparam :: "int \<Rightarrow> tensor \<Rightarrow> int \<Rightarrow> error + tensor" where
  "slice_reparam k0 w k =
     (case w of
        Cube q \<Rightarrow>
          (if 0 \<le> k \<and> nat k < length q then Inr (Mat (q ! nat k))
           else Inl IndexError)
      | _ \<Rightarrow> Inl (BackendError ''reparam: rank''))"

text \<open>An activation applied to every entry.\<close>

definition entrywise :: "(int \<Rightarrow> int) \<Rightarrow> tensor \<Rightarrow> error + tensor" where
  "entrywise f t =
     Inr (case t of
            Vec v \<Rightarrow> Vec (map f v)
          | Mat m \<Rightarrow> Mat (map (map f) m)
          | Cube q \<Rightarrow> Cube (map (map (map f)) q))"

paragraph \<open>Dense matrices of floating-point values\<close>

text \<open>
  Modelled from the spec: the tensors of the layer hold floating-point numbers, which
  besides finite values have two infinities and NaN. The third instance computes with
  these: a finite value is an integer (rounding and overflow of finite arithmetic are left
  out, and a negative zero is not told from zero), the special values follow IEEE 754,
  where NaN is absorbing, an infinity times zero is NaN and opposite infinities add to
  NaN. It covers single mode (\<open>x\<close> of shape \<open>(N, F)\<close>) and batch mode (\<open>(B, N, F)\<close>).
\<close>

datatype fl = Fin int | PInf | NInf | NaN

definition is_fin :: "fl \<Rightarrow> bool" where
  "is_fin v = (case v of Fin _ \<Rightarrow> True | _ \<Rightarrow> False)"

definition fl_inf :: "bool \<Rightarrow> fl" where
  "fl_inf positive = (if positive then PInf else NInf)"

fun fl_add :: "fl \<Rightarrow> fl \<Rightarrow> fl" where
  "fl_add NaN _ = NaN"
| "fl_add _ NaN = NaN"
| "fl_add (Fin a) (Fin b) = Fin (a + b)"
| "fl_add PInf NInf = NaN"
| "fl_add NInf PInf = NaN"
| "fl_add PInf _ = PInf"
| "fl_add _ PInf = PInf"
| "fl_add NInf _ = NInf"
| "fl_add _ NInf = NInf"

fun fl_neg :: "fl \<Rightarrow> fl" where
  "fl_neg (Fin a) = Fin (- a)"
| "fl_neg PInf = NInf"
| "fl_neg NInf = PInf"
| "fl_neg NaN = NaN"

definition fl_sub :: "fl \<Rightarrow> fl \<Rightarrow> fl" where
  "fl_sub a b = fl_add a (fl_neg b)"

fun fl_mul :: "fl \<Rightarrow> fl \<Rightarrow> fl" where
  "fl_mul NaN _ = NaN"
| "fl_mul _ NaN = NaN"
| "fl_mul (Fin a) (Fin b) = Fin (a * b)"
| "fl_mul (Fin a) PInf = (if a = 0 then NaN else fl_inf (0 < a))"
| "fl_mul (Fin a) NInf = (if a = 0 then NaN else fl_inf (a < 0))"
| "fl_mul PInf (Fin b) = (if b = 0 then NaN else fl_inf (0 < b))"
| "fl_mul NInf (Fin b) = (if b = 0 then NaN else fl_inf (b < 0))"
| "fl_mul PInf PInf = PInf"
| "fl_mul PInf NInf = NInf"
| "fl_mul NInf PInf = NInf"
| "fl_mul NInf NInf = PInf"

datatype ftensor = FVec "fl list" | FMat "fl list list" | FCube "fl list list list"

definition fcols :: "fl list list \<Rightarrow> nat" where
  "fcols m = (case m of [] \<Rightarrow> 0 | r # _ \<Rightarrow> length r)"

definition frect :: "nat \<Rightarrow> fl list list \<Rightarrow> bool" where
  "frect n m = list_all (\<lambda>r. length r = n) m"

definition fsum :: "fl list \<Rightarrow> fl" where
  "fsum vs = foldr fl_add vs (Fin 0)"

definition fmatmul :: "fl list list \<Rightarrow> fl list list \<Rightarrow> fl list list" where
  "fmatmul a b =
     map (\<lambda>r. map (\<lambda>j. fsum (map2 (\<lambda>v brow. fl_mul v (brow ! j)) r b)) [0..<fcols b]) a"

definition fmat_ok :: "fl list list \<Rightarrow> fl list list \<Rightarrow> bool" where
  "fmat_ok a b = (frect (length b) a \<and> frect (fcols b) b)"

definition fd_dot :: "ftensor \<Rightarrow> ftensor \<Rightarrow> error + ftensor" where
  "fd_dot x w =
     (case (x, w) of
        (FMat a, FMat b) \<Rightarrow>
          (if fmat_ok a b then Inr (FMat (fmatmul a b))
           else Inl (BackendError ''dot: inner dimensions''))
      | (FCube q, FMat b) \<Rightarrow>
          (if list_all (\<lambda>a. fmat_ok a b) q then Inr (FCube (map (\<lambda>a. fmatmul a b) q))
           else Inl (BackendError ''dot: inner dimensions''))
      | _ \<Rightarrow> Inl (BackendError ''dot: rank''))"

definition fd_modal_dot :: "ftensor \<Rightarrow> ftensor \<Rightarrow> error + ftensor" where
  "fd_modal_dot a x =
     (case (a, x) of
        (FMat m, FMat b) \<Rightarrow>
          (if fmat_ok m b then Inr (FMat (fmatmul m b))
           else Inl (BackendError ''modal_dot: inner dimensions''))
      | (FCube qa, FCube qx) \<Rightarrow>
          (if length qa = length qx \<and> list_all (\<lambda>(m, b). fmat_ok m b) (zip qa qx)
           then Inr (FCube (map2 fmatmul qa qx))
           else Inl (BackendError ''modal_dot: inner dimensions''))
      | (FMat m, FCube qx) \<Rightarrow>
          (if list_all (fmat_ok m) qx then Inr (FCube (map (fmatmul m) qx))
           else Inl (BackendError ''modal_dot: inner dimensions''))
      | _ \<Rightarrow> Inl (BackendError ''modal_dot: rank''))"

definition fd_map :: "(fl \<Rightarrow> fl) \<Rightarrow> ftensor \<Rightarrow> ftensor" where
  "fd_map f t =
     (case t of
        FVec v \<Rightarrow> FVec (map f v)
      | FMat m \<Rightarrow> FMat (map (map f) m)
      | FCube q \<Rightarrow> FCube (map (map (map f)) q))"

definition fd_scalar_mul :: "int \<Rightarrow> ftensor \<Rightarrow> error + ftensor" where
  "fd_scalar_mul c t = Inr (fd_map (fl_mul (Fin c)) t)"

definition fd_zip :: "(fl \<Rightarrow> fl \<Rightarrow> fl) \<Rightarrow> ftensor \<Rightarrow> ftensor \<Rightarrow> error + ftensor" where
  "fd_zip f s t =
     (case (s, t) of
        (FMat a, FMat b) \<Rightarrow>
          (if map length a = map length b then Inr (FMat (map2 (map2 f) a b))
           else Inl (BackendError ''shapes differ''))
      | (FCube p, FCube q) \<Rightarrow>
          (if map (map length) p = map (map length) q
           then Inr (FCube (map2 (map2 (map2 f)) p q))
           else Inl (BackendError ''shapes differ''))
      | _ \<Rightarrow> Inl (BackendError ''rank''))"

text \<open>
  \<open>output * mask\<close> on the rows of the nodes: a mask row holds one entry (the missing
  trailing dimension, broadcast along the row) or one entry per channel.
\<close>

definition mask_ok :: "fl list list \<Rightarrow> fl list list \<Rightarrow> bool" where
  "mask_ok a m =
     (length a = length m \<and>
      list_all (\<lambda>(r, mr). length mr = 1 \<or> length mr = length r) (zip a m))"

definition mask_row :: "fl list \<Rightarrow> fl list \<Rightarrow> fl list" where
  "mask_row r mr =
     (if length mr = 1 then map (\<lambda>v. fl_mul v (hd mr)) r else map2 fl_mul r mr)"

definition fd_mul :: "ftensor \<Rightarrow> ftensor \<Rightarrow> error + ftensor" where
  "fd_mul s t =
     (case (s, t) of
        (FMat a, FMat m) \<Rightarrow>
          (if mask_ok a m then Inr (FMat (map2 mask_row a m))
           else Inl (BackendError ''shapes differ''))
      | (FCube q, FCube mq) \<Rightarrow>
          (if length q = length mq \<and> list_all (\<lambda>(a, m). mask_ok a m) (zip q mq)
           then Inr (FCube (map2 (map2 mask_row) q mq))
           else Inl (BackendError ''shapes differ''))
      | _ \<Rightarrow> Inl (BackendError ''rank''))"

definition fd_bias_add :: "ftensor \<Rightarrow> ftensor \<Rightarrow> error + ftensor" where
  "fd_bias_add s b =
     (case (s, b) of
        (FMat a, FVec v) \<Rightarrow>
          (if frect (length v) a then Inr (FMat (map (\<lambda>r. map2 fl_add r v) a))
           else Inl (BackendError ''bias_add''))
      | (FCube q, FVec v) \<Rightarrow>
          (if list_all (frect (length v)) q
           then Inr (FCube (map (map (\<lambda>r. map2 fl_add r v)) q))
           else Inl (BackendError ''bias_add''))
      | _ \<Rightarrow> Inl (BackendError ''bias_add: rank''))"

definition fd_add_weight :: "dim list \<Rightarrow> string \<Rightarrow> error + ftensor" where
  "fd_add_weight dims name =
     (if \<not> list_all known_dim dims then Inl ValueError
      else case map (\<lambda>d. nat (the d)) dims of
             [c] \<Rightarrow> Inr (FVec (replicate c (Fin 0)))
           | [f, c] \<Rightarrow> Inr (FMat (replicate f (replicate c (Fin 0))))
           | [k, f, c] \<Rightarrow> Inr (FCube (replicate k (replicate f (replicate c (Fin 0)))))
           | _ \<Rightarrow> Inl ValueError)"

definition fd_shape :: "ftensor \<Rightarrow> nat list" where
  "fd_shape t =
     (case t of
        FVec v \<Rightarrow> [length v]
      | FMat m \<Rightarrow> [length m, fcols m]
      | FCube q \<Rightarrow> [length q, (case q of [] \<Rightarrow> 0 | m # _ \<Rightarrow> length m),
                   (case q of [] \<Rightarrow> 0 | m # _ \<Rightarrow> fcols m)])"

definition fdense :: "(int \<Rightarrow> ftensor \<Rightarrow> int \<Rightarrow> error + ftensor) \<Rightarrow> ftensor backend" where
  "fdense reparam =
     \<lparr>dot = fd_dot, modal_dot = fd_modal_dot, chebyshev_reparam_weights = reparam,
      scalar_mul = fd_scalar_mul, tsub = fd_zip fl_sub, tadd = fd_zip fl_add, tmul = fd_mul,
      bias_add = fd_bias_add, add_weight = fd_add_weight,
      shape_str = (\<lambda>t. show_shape (fd_shape t))\<rparr>"

definition fslice_reparam :: "int \<Rightarrow> ftensor \<Rightarrow> int \<Rightarrow> error + ftensor" where
  "fslice_reparam k0 w k =
     (case w of
        FCube q \<Rightarrow>
          (if 0 \<le> k \<and> nat k < length q then Inr (FMat (q ! nat k))
           else Inl IndexError)
      | _ \<Rightarrow> Inl (BackendError ''reparam: rank''))"

definition f_entrywise :: "(fl \<Rightarrow> fl) \<Rightarrow> ftensor \<Rightarrow> error + ftensor" where
  "f_entrywise f t = Inr (fd_map f t)"

text \<open>The rows of the nodes of a tensor, batch after batch.\<close>

definition node_rows :: "ftensor \<Rightarrow> fl list list" where
  "node_rows t = (case t of FVec v \<Rightarrow> [v] | FMat m \<Rightarrow> m | FCube q \<Rightarrow> concat q)"

subsection \<open>Concrete layers\<close>

text \<open>
  A built layer with \<open>K = 3\<close>, two input and two output channels, the identity
  activation and a bias, over the dense instance.
\<close>

definition W3 :: "tensor world" where
  "W3 = new_world ((init 2 3 Inr True)
          \<lparr>kernel := Some (Cube [[[1, 0], [0, 1]], [[1, 1], [0, 2]], [[2, 0], [1, 1]]]),
           bias := Some (Vec [10, 20]), built := True\<rparr>)"

text \<open>The same with \<open>K = 1\<close>.\<close>

definition W1 :: "tensor world" where
  "W1 = new_world ((init 2 1 Inr True)
          \<lparr>kernel := Some (Cube [[[1, 2], [3, 4]]]), bias := Some (Vec [10, 20]),
           built := True\<rparr>)"

text \<open>A layer with \<open>K = 1\<close>, negative weights and the activation \<open>max(0, v)\<close>.\<close>

definition W1r :: "tensor world" where
  "W1r = new_world ((init 2 1 (entrywise (max 0)) True)
          \<lparr>kernel := Some (Cube [[[- 1, - 1], [- 1, - 1]]]), bias := Some (Vec [10, 20]),
           built := True\<rparr>)"

text \<open>
  A built layer with \<open>K = 1\<close>, a bias and the activation \<open>v + 1\<close>, over the floating-point
  instance.
\<close>

definition WF1 :: "ftensor world" where
  "WF1 = new_world ((init 2 1 (f_entrywise (\<lambda>v. fl_add v (Fin 1))) True)
          \<lparr>kernel := Some (FCube [[[Fin 1, Fin 2], [Fin 3, Fin 4]]]),
           bias := Some (FVec [Fin 10, Fin 20]), built := True\<rparr>)"

subsection \<open>The two steps of preprocess\<close>








subsection \<open>Auxiliary notions for the proofs\<close>

text \<open>A statement that leaves the layer object and the printed lines as they were.\<close>

definition frame :: "('t, 'a) prog \<Rightarrow> bool" where
  "frame m = (\<forall>w. self (snd (m w)) = self w \<and> stdout (snd (m w)) = stdout w)"

text \<open>
  The result of lines 102-112 and of lines 114-118 as functions of the attributes read,
  without the state: what \<open>call\<close> is shown to compute.
\<close>

definition terms_pure :: "'t backend \<Rightarrow> int \<Rightarrow> 't option \<Rightarrow> 't \<Rightarrow> 't \<Rightarrow> error + 't" where
  "terms_pure be k0 kern a x =
     (case kern of
        None \<Rightarrow> Inl AttributeError
      | Some w0 \<Rightarrow>
          (if k0 \<le> 1 then bindE (chebyshev_reparam_weights be k0 w0 0) (dot be x)
           else cheb_sum be k0 w0 a x (nat k0 - 1)))"

definition post :: "'t backend \<Rightarrow> 't layer \<Rightarrow> 't list option \<Rightarrow> 't \<Rightarrow> error + 't" where
  "post be l mask0 out =
     bindE (if use_bias l then
              (case bias l of None \<Rightarrow> Inl AttributeError | Some b \<Rightarrow> bias_add be out b)
            else Inr out) (\<lambda>out1.
     bindE (case mask0 of
              None \<Rightarrow> Inr out1
            | Some ms \<Rightarrow> (case ms of [] \<Rightarrow> Inl IndexError | m0 # _ \<Rightarrow> tmul be out1 m0))
       (activation l))"

section \<open>Verified properties\<close>

subsection \<open>The frame of call\<close>

lemma frame_ret: "frame (ret v)"
  by (simp add: frame_def ret_def)

lemma frame_throw: "frame (throw e)"
  by (simp add: frame_def throw_def)

lemma frame_lift: "frame (lift r)"
  by (simp add: frame_def lift_def)

lemma frame_attr: "frame (attr f)"
  by (simp add: frame_def attr_def)

lemma frame_attr_opt: "frame (attr_opt f)"
  by (simp add: frame_def attr_opt_def split: option.splits)

lemma frame_bindP:
  assumes "frame m" and "\<And>v. frame (f v)"
  shows "frame (bindP m f)"
proof -
  have "self (snd (bindP m f w)) = self w \<and> stdout (snd (bindP m f w)) = stdout w" for w
  proof (cases "m w")
    case (Pair r w')
    from assms(1) have m: "self w' = self w" "stdout w' = stdout w"
      using Pair by (auto simp: frame_def dest: spec [of _ w])
    show ?thesis
    proof (cases r)
      case (Inl e)
      then show ?thesis using Pair m by (simp add: bindP_def)
    next
      case (Inr v)
      from assms(2) [of v] have "self (snd (f v w')) = self w'" "stdout (snd (f v w')) = stdout w'"
        by (auto simp: frame_def)
      then show ?thesis using Pair Inr m by (simp add: bindP_def)
    qed
  qed
  then show ?thesis by (simp add: frame_def)
qed

lemma frame_reparam_self: "frame (reparam_self be k)"
  unfolding reparam_self_def
  by (intro frame_bindP frame_attr frame_attr_opt) (simp add: frame_def)

lemma frame_for_loop:
  assumes "\<And>k s. frame (body k s)"
  shows "frame (for_loop body ks s)"
proof (induction ks arbitrary: s)
  case Nil
  show ?case by (simp add: frame_ret)
next
  case (Cons k ks)
  show ?case by (simp, intro frame_bindP assms Cons.IH)
qed

lemma frame_cheb_step: "frame (cheb_step be a k s)"
proof (cases s)
  case (fields t0 t1o out)
  show ?thesis
  proof (cases t1o)
    case None
    then show ?thesis using fields by (simp add: cheb_step_def frame_throw)
  next
    case (Some t1)
    show ?thesis
      unfolding fields Some cheb_step_def prod.case option.case
      by (intro frame_bindP frame_lift frame_reparam_self frame_ret)
  qed
qed

lemma frame_call_terms: "frame (call_terms be x a)"
  unfolding call_terms_def
  by (auto simp: frame_ret frame_lift frame_attr frame_reparam_self frame_for_loop frame_cheb_step
        split: prod.splits intro!: frame_bindP)

lemma frame_call_masked: "frame (call_masked be inputs mask0)"
  unfolding call_masked_def
  by (auto simp: frame_ret frame_throw frame_lift frame_call_terms frame_attr frame_attr_opt
        split: prod.splits option.splits list.splits intro!: frame_bindP)

lemma frame_call: "frame (call be inputs mask0)"
  unfolding call_def
  by (intro frame_bindP frame_call_masked frame_attr frame_lift)

subsection \<open>The loop computes the recurrence\<close>

lemma for_loop_snoc:
  "for_loop body (ks @ [k]) s w =
     (case for_loop body ks s w of (Inl e, w') \<Rightarrow> (Inl e, w') | (Inr s', w') \<Rightarrow> body k s' w')"
proof (induction ks arbitrary: s w)
  case Nil
  show ?case by (simp add: bindP_def ret_def split: prod.splits sum.splits)
next
  case (Cons j js)
  show ?case
    by (simp add: bindP_def Cons.IH split: prod.splits sum.splits)
qed

lemma reparam_self_run:
  "kernel (self w) = Some w0 \<Longrightarrow>
   reparam_self be k w =
     (chebyshev_reparam_weights be (K (self w)) w0 k,
      w\<lparr>reparam_calls := reparam_calls w @ [(K (self w), w0, k)]\<rparr>)"
  by (simp add: reparam_self_def bindP_def attr_def attr_opt_def)

lemma cheb_step_fst:
  assumes "kernel (self w) = Some w0"
  shows "fst (cheb_step be a k (t0, Some t1, out) w) =
     bindE (modal_dot be a t1) (\<lambda>m.
     bindE (scalar_mul be 2 m) (\<lambda>m2.
     bindE (tsub be m2 t0) (\<lambda>t2.
     bindE (chebyshev_reparam_weights be (K (self w)) w0 (int k)) (\<lambda>wk.
     bindE (dot be t2 wk) (\<lambda>d.
     bindE (tadd be out d) (\<lambda>out'.
     Inr (t1, Some t2, out')))))))"
  using assms
  by (simp add: cheb_step_def bindP_def bindE_def lift_def ret_def reparam_self_run
      split: sum.splits)

lemma cheb_step_calls:
  assumes "kernel (self w) = Some w0" and "fst (cheb_step be a k s w) = Inr s'"
  shows "reparam_calls (snd (cheb_step be a k s w)) =
         reparam_calls w @ [(K (self w), w0, int k)]"
  using assms
  by (cases s)
     (auto simp: cheb_step_def bindP_def lift_def ret_def throw_def reparam_self_run
       split: sum.splits option.splits)

lemma cheb_loop_inv:
  assumes kern: "kernel (self w) = Some w0"
    and t1: "modal_dot be a x = Inr t1"
    and out1: "cheb_sum be (K (self w)) w0 a x 1 = Inr out1"
  shows "self (snd (for_loop (cheb_step be a) [2..<2 + n] (x, Some t1, out1) w)) = self w \<and>
    (case fst (for_loop (cheb_step be a) [2..<2 + n] (x, Some t1, out1) w) of
       Inl e \<Rightarrow> cheb_sum be (K (self w)) w0 a x (Suc n) = Inl e
     | Inr s \<Rightarrow>
         cheb_T be a x n = Inr (fst s) \<and>
         (\<exists>t. fst (snd s) = Some t \<and> cheb_T be a x (Suc n) = Inr t) \<and>
         cheb_sum be (K (self w)) w0 a x (Suc n) = Inr (snd (snd s)) \<and>
         reparam_calls (snd (for_loop (cheb_step be a) [2..<2 + n] (x, Some t1, out1) w)) =
           reparam_calls w @ map (\<lambda>k. (K (self w), w0, int k)) [2..<2 + n])"
proof (induction n)
  case 0
  show ?case using t1 out1 by (simp add: ret_def)
next
  case (Suc n)
  let ?R = "for_loop (cheb_step be a) [2..<2 + n] (x, Some t1, out1) w"
  have up: "[2..<2 + Suc n] = [2..<2 + n] @ [2 + n]" by simp
  obtain r w' where R: "?R = (r, w')" by (cases ?R)
  from Suc.IH R have self': "self w' = self w" by simp
  show ?case
  proof (cases r)
    case (Inl e)
    with Suc.IH R have "cheb_sum be (K (self w)) w0 a x (Suc n) = Inl e" by simp
    then show ?thesis
      unfolding up for_loop_snoc using R Inl self' by (simp add: bindE_def)
  next
    case (Inr s)
    obtain u0 u1o out where s: "s = (u0, u1o, out)" by (cases s)
    from Suc.IH R Inr s obtain u1 where
      u0: "cheb_T be a x n = Inr u0" and u1o: "u1o = Some u1" and
      u1: "cheb_T be a x (Suc n) = Inr u1" and
      out: "cheb_sum be (K (self w)) w0 a x (Suc n) = Inr out" and
      calls: "reparam_calls w' = reparam_calls w @ map (\<lambda>k. (K (self w), w0, int k)) [2..<2 + n]"
      by auto
    have kern': "kernel (self w') = Some w0" using kern self' by simp
    let ?S = "cheb_step be a (2 + n) (u0, Some u1, out) w'"
    have run: "for_loop (cheb_step be a) [2..<2 + Suc n] (x, Some t1, out1) w = ?S"
      unfolding up for_loop_snoc using R Inr s u1o by simp
    have selfS: "self (snd ?S) = self w"
      using frame_cheb_step [of be a "2 + n" "(u0, Some u1, out)"] self'
      by (simp add: frame_def)
    have fstS: "fst ?S =
       bindE (modal_dot be a u1) (\<lambda>m.
       bindE (scalar_mul be 2 m) (\<lambda>m2.
       bindE (tsub be m2 u0) (\<lambda>t2.
       bindE (chebyshev_reparam_weights be (K (self w)) w0 (int (2 + n))) (\<lambda>wk.
       bindE (dot be t2 wk) (\<lambda>d.
       bindE (tadd be out d) (\<lambda>out'.
       Inr (u1, Some t2, out')))))))"
      using cheb_step_fst [OF kern'] self' by simp
    have spec: "cheb_sum be (K (self w)) w0 a x (Suc (Suc n)) =
       bindE (modal_dot be a u1) (\<lambda>m.
       bindE (scalar_mul be 2 m) (\<lambda>m2.
       bindE (tsub be m2 u0) (\<lambda>t2.
       bindE (chebyshev_reparam_weights be (K (self w)) w0 (int (2 + n))) (\<lambda>wk.
       bindE (dot be t2 wk) (\<lambda>d.
       tadd be out d)))))"
      using u0 u1 out by (simp add: cheb_term_def bindE_def split: sum.splits)
    have T: "cheb_T be a x (Suc (Suc n)) =
       bindE (modal_dot be a u1) (\<lambda>m.
       bindE (scalar_mul be 2 m) (\<lambda>m2. tsub be m2 u0))"
      using u0 u1 by (simp add: bindE_def)
    have callsS: "\<And>s'. fst ?S = Inr s' \<Longrightarrow>
        reparam_calls (snd ?S) =
        reparam_calls w @ map (\<lambda>k. (K (self w), w0, int k)) [2..<2 + Suc n]"
      using cheb_step_calls [OF kern'] calls self' by simp
    show ?thesis
    proof (cases "fst ?S")
      case (Inl e)
      then show ?thesis
        unfolding run using selfS fstS spec by (auto simp: bindE_def split: sum.splits)
    next
      case (Inr s')
      then show ?thesis
        unfolding run using selfS fstS spec T u1 callsS [OF Inr]
        by (auto simp: bindE_def split: sum.splits)
    qed
  qed
qed

subsection \<open>Laws of sequencing\<close>

lemma bindP_assoc: "bindP (bindP m f) g = bindP m (\<lambda>v. bindP (f v) g)"
  by (rule ext) (simp add: bindP_def split: prod.splits sum.splits)

lemma bindP_ret: "bindP (ret v) f = f v"
  by (rule ext) (simp add: bindP_def ret_def)

lemma bindP_attr: "bindP (attr g) f w = f (g (self w)) w"
  by (simp add: bindP_def attr_def)

lemma bindP_lift_Inr: "bindP (lift (Inr v)) f = f v"
  by (rule ext) (simp add: bindP_def lift_def)

lemma bindP_reparam_Inr:
  "kernel (self w) = Some w0 \<Longrightarrow> chebyshev_reparam_weights be (K (self w)) w0 k = Inr v \<Longrightarrow>
   bindP (reparam_self be k) f w =
     f v (w\<lparr>reparam_calls := reparam_calls w @ [(K (self w), w0, k)]\<rparr>)"
  by (simp add: bindP_def reparam_self_run)

lemma fst_bindP_lift: "fst (bindP (lift r) f w) = bindE r (\<lambda>v. fst (f v w))"
  by (simp add: bindP_def lift_def bindE_def split: sum.splits)

lemma fst_bindP_reparam:
  "kernel (self w) = Some w0 \<Longrightarrow>
   fst (bindP (reparam_self be k) f w) =
     bindE (chebyshev_reparam_weights be (K (self w)) w0 k)
       (\<lambda>v. fst (f v (w\<lparr>reparam_calls := reparam_calls w @ [(K (self w), w0, k)]\<rparr>)))"
  by (simp add: bindP_def reparam_self_run bindE_def split: sum.splits)

lemma bindE_assoc: "bindE (bindE r f) g = bindE r (\<lambda>v. bindE (f v) g)"
  by (simp add: bindE_def split: sum.splits)

lemma bindE_Inr: "bindE (Inr v) f = f v"
  by (simp add: bindE_def)

lemma bindE_ret: "bindE r Inr = r"
  by (simp add: bindE_def split: sum.splits)

lemma bindE_Inl: "bindE (Inl e) f = Inl e"
  by (simp add: bindE_def)

subsection \<open>The accumulated output is the sum of the terms\<close>

lemma cheb_sum_fail:
  "cheb_sum be k0 w0 a x n = Inl e \<Longrightarrow> cheb_sum be k0 w0 a x (n + m) = Inl e"
  by (induction m) (simp_all add: bindE_Inl)

lemma call_terms_one:
  assumes "K (self w) = 1" and "kernel (self w) = Some w0"
  shows "call_terms be x a w =
     (bindE (chebyshev_reparam_weights be 1 w0 0) (dot be x),
      w\<lparr>reparam_calls := reparam_calls w @ [(1, w0, 0)]\<rparr>)"
  using assms
  by (simp add: call_terms_def bindP_def bindE_def lift_def ret_def attr_def reparam_self_run
      split: sum.splits)

lemma call_terms_prelude:
  assumes k: "1 < K (self w)" and kern: "kernel (self w) = Some w0"
    and e: "chebyshev_reparam_weights be (K (self w)) w0 0 = Inr r0" "dot be x r0 = Inr o0"
         "modal_dot be a x = Inr t1"
         "chebyshev_reparam_weights be (K (self w)) w0 1 = Inr r1" "dot be t1 r1 = Inr d1"
         "tadd be o0 d1 = Inr o1"
  shows "call_terms be x a w =
     bindP (for_loop (cheb_step be a) [2..<nat (K (self w))] (x, Some t1, o1))
           (\<lambda>(T_0, T_1o, output). ret output)
       (w\<lparr>reparam_calls := reparam_calls w @ [(K (self w), w0, 0), (K (self w), w0, 1)]\<rparr>)"
  using k kern e
  by (simp add: call_terms_def bindP_assoc bindP_ret bindP_attr bindP_lift_Inr bindP_reparam_Inr)

lemma upt_from_0_2:
  assumes "2 \<le> m"
  shows "[0..<m] = 0 # 1 # [2..<m]"
proof -
  have a: "[0..<m] = 0 # [Suc 0..<m]"
    by (rule upt_conv_Cons) (use assms in simp)
  have b: "[Suc 0..<m] = Suc 0 # [Suc (Suc 0)..<m]"
    by (rule upt_conv_Cons) (use assms in simp)
  show ?thesis
    unfolding a b by (simp only: numeral_2_eq_2 One_nat_def)
qed

lemma bindE_InrE:
  assumes "bindE r f = Inr y"
  obtains v where "r = Inr v" and "f v = Inr y"
  using assms by (cases r) (simp_all add: bindE_def)

lemma call_terms_many_ok:
  assumes k: "1 < K (self w)" and kern: "kernel (self w) = Some w0"
    and e: "chebyshev_reparam_weights be (K (self w)) w0 0 = Inr r0" "dot be x r0 = Inr o0"
         "modal_dot be a x = Inr t1"
         "chebyshev_reparam_weights be (K (self w)) w0 1 = Inr r1" "dot be t1 r1 = Inr d1"
         "tadd be o0 d1 = Inr o1"
  shows "fst (call_terms be x a w) =
           cheb_sum be (K (self w)) w0 a x (nat (K (self w)) - 1) \<and>
         (\<forall>y. fst (call_terms be x a w) = Inr y \<longrightarrow>
           reparam_calls (snd (call_terms be x a w)) =
           reparam_calls w @ map (\<lambda>k. (K (self w), w0, int k)) [0..<nat (K (self w))])"
proof -
  let ?k = "K (self w)"
  let ?w2 = "w\<lparr>reparam_calls := reparam_calls w @ [(?k, w0, 0), (?k, w0, 1)]\<rparr>"
  define n where "n = nat ?k - 2"
  have n: "2 + n = nat ?k" and n1: "Suc n = nat ?k - 1" using k by (simp_all add: n_def)
  have o1: "cheb_sum be ?k w0 a x 1 = Inr o1"
    using e by (simp add: cheb_term_def bindE_Inr)
  let ?L = "for_loop (cheb_step be a) [2..<nat ?k] (x, Some t1, o1) ?w2"
  have kern2: "kernel (self ?w2) = Some w0" using kern by simp
  have o2: "cheb_sum be (K (self ?w2)) w0 a x 1 = Inr o1" using o1 by simp
  have self2: "self ?w2 = self w" by simp
  note inv = cheb_loop_inv [OF kern2 e(3) o2, of n, unfolded n n1 self2]
  have run: "call_terms be x a w = bindP (\<lambda>w. ?L) (\<lambda>(T_0, T_1o, output). ret output) ?w2"
    using call_terms_prelude [OF k kern e] by (simp add: bindP_def)
  have upt: "[0..<nat ?k] = 0 # 1 # [2..<nat ?k]"
    using k by (simp add: upt_from_0_2)
  obtain r w' where R: "?L = (r, w')" by (cases ?L)
  show ?thesis
  proof (cases r)
    case (Inl err)
    have "call_terms be x a w = (Inl err, w')"
      unfolding run using R Inl by (simp add: bindP_def)
    moreover have "cheb_sum be ?k w0 a x (nat ?k - 1) = Inl err"
      using inv R Inl by simp
    ultimately show ?thesis by simp
  next
    case (Inr s)
    have c: "call_terms be x a w = (Inr (snd (snd s)), w')"
      unfolding run using R Inr by (simp add: bindP_def ret_def split: prod.splits)
    have "cheb_sum be ?k w0 a x (nat ?k - 1) = Inr (snd (snd s))"
      and "reparam_calls w' = reparam_calls ?w2 @ map (\<lambda>k. (?k, w0, int k)) [2..<nat ?k]"
      using inv R Inr by simp_all
    then show ?thesis unfolding c by (simp add: upt)
  qed
qed

lemma call_terms_many:
  assumes k: "1 < K (self w)" and kern: "kernel (self w) = Some w0"
  shows "fst (call_terms be x a w) =
           cheb_sum be (K (self w)) w0 a x (nat (K (self w)) - 1) \<and>
         (\<forall>y. fst (call_terms be x a w) = Inr y \<longrightarrow>
           reparam_calls (snd (call_terms be x a w)) =
           reparam_calls w @ map (\<lambda>k. (K (self w), w0, int k)) [0..<nat (K (self w))])"
proof -
  let ?k = "K (self w)"
  let ?w2 = "w\<lparr>reparam_calls := reparam_calls w @ [(?k, w0, 0), (?k, w0, 1)]\<rparr>"
  let ?pre = "bindE (chebyshev_reparam_weights be ?k w0 0) (\<lambda>r0.
              bindE (dot be x r0) (\<lambda>o0.
              bindE (modal_dot be a x) (\<lambda>t1.
              bindE (chebyshev_reparam_weights be ?k w0 1) (\<lambda>r1.
              bindE (dot be t1 r1) (\<lambda>d1.
              bindE (tadd be o0 d1) (\<lambda>o1. Inr (t1, o1)))))))"
  have "2 \<le> nat ?k" using k by simp
  then obtain n where n: "nat ?k = 2 + n" using le_Suc_ex by blast
  have sum1: "cheb_sum be ?k w0 a x 1 = bindE ?pre (\<lambda>p. Inr (snd p))"
    by (simp add: cheb_term_def bindE_assoc bindE_Inr bindE_ret)
  have F: "fst (call_terms be x a w) =
      bindE ?pre (\<lambda>p. fst (bindP (for_loop (cheb_step be a) [2..<nat ?k] (x, Some (fst p), snd p))
                             (\<lambda>(T_0, T_1o, output). ret output) ?w2))"
    using k kern
    by (simp add: call_terms_def bindP_assoc bindP_ret bindP_attr fst_bindP_lift
        fst_bindP_reparam bindE_assoc bindE_Inr)
  show ?thesis
  proof (cases ?pre)
    case (Inl e)
    have "cheb_sum be ?k w0 a x 1 = Inl e" using sum1 Inl by (simp add: bindE_Inl)
    from cheb_sum_fail [OF this, of n] have "cheb_sum be ?k w0 a x (Suc n) = Inl e" by simp
    moreover have "fst (call_terms be x a w) = Inl e"
      unfolding F Inl by (simp add: bindE_Inl)
    ultimately show ?thesis using n by simp
  next
    case (Inr p)
    then show ?thesis
      by (elim bindE_InrE) (rule call_terms_many_ok [OF k kern])
  qed
qed

subsection \<open>call as a function of the attributes it reads\<close>

lemma call_terms_le_one:
  assumes "K (self w) \<le> 1"
  shows "call_terms be x a w = bindP (reparam_self be 0) (\<lambda>w0. lift (dot be x w0)) w"
  using assms
  by (simp add: call_terms_def bindP_def reparam_self_def attr_def attr_opt_def lift_def ret_def
      split: option.splits sum.splits)

lemma call_terms_no_kernel:
  assumes "kernel (self w) = None"
  shows "call_terms be x a w = (Inl AttributeError, w)"
  using assms
  by (simp add: call_terms_def bindP_def reparam_self_def attr_def attr_opt_def)

lemma fst_call_terms:
  "fst (call_terms be x a w) = terms_pure be (K (self w)) (kernel (self w)) a x"
proof (cases "kernel (self w)")
  case None
  then show ?thesis by (simp add: call_terms_no_kernel terms_pure_def)
next
  case (Some w0)
  show ?thesis
  proof (cases "K (self w) \<le> 1")
    case True
    then show ?thesis
      using Some
      by (simp add: call_terms_le_one terms_pure_def fst_bindP_reparam fst_bindP_lift
          lift_def bindE_ret) 
  next
    case False
    then have "1 < K (self w)" by simp
    from call_terms_many [OF this Some] show ?thesis
      using Some False by (simp add: terms_pure_def)
  qed
qed

lemma call_terms_calls:
  assumes "1 \<le> K (self w)" and "kernel (self w) = Some w0"
    and "fst (call_terms be x a w) = Inr y"
  shows "reparam_calls (snd (call_terms be x a w)) =
         reparam_calls w @ map (\<lambda>k. (K (self w), w0, int k)) [0..<nat (K (self w))]"
proof (cases "K (self w) = 1")
  case True
  then show ?thesis
    using call_terms_one [OF True assms(2), of be x a] by simp
next
  case False
  with assms(1) have "1 < K (self w)" by simp
  from call_terms_many [OF this assms(2)] assms(3) show ?thesis by simp
qed

lemma post_run:
  "bindP (bindP (attr use_bias) (\<lambda>ub.
     bindP (if ub then bindP (attr_opt bias) (\<lambda>b. lift (bias_add be out b)) else ret out)
       (\<lambda>out1. case mask0 of
           None \<Rightarrow> ret out1
         | Some ms \<Rightarrow> (case ms of [] \<Rightarrow> throw IndexError | m0 # _ \<Rightarrow> lift (tmul be out1 m0)))))
     (\<lambda>out2. bindP (attr activation) (\<lambda>act. lift (act out2))) w =
   (post be (self w) mask0 out, w)"
  by (simp add: bindP_def lift_def ret_def throw_def attr_def attr_opt_def post_def bindE_def
      split: sum.splits option.splits list.splits)

lemma call_run:
  "call be inputs mask0 w =
     (case unpack2 inputs of
        Inl e \<Rightarrow> (Inl e, w)
      | Inr p \<Rightarrow>
          (case call_terms be (fst p) (snd p) w of
             (Inl e, w') \<Rightarrow> (Inl e, w')
           | (Inr out, w') \<Rightarrow> (post be (self w') mask0 out, w')))"
proof (cases "unpack2 inputs")
  case (Inl e)
  then show ?thesis by (simp add: call_def call_masked_def bindP_def lift_def)
next
  case (Inr p)
  obtain x a where p: "p = (x, a)" by (cases p)
  obtain r w' where R: "call_terms be x a w = (r, w')" by (cases "call_terms be x a w")
  have c: "call be inputs mask0 w =
      bindP (call_terms be x a) (\<lambda>out.
        bindP (bindP (attr use_bias) (\<lambda>ub.
          bindP (if ub then bindP (attr_opt bias) (\<lambda>b. lift (bias_add be out b)) else ret out)
            (\<lambda>out1. case mask0 of
                None \<Rightarrow> ret out1
              | Some ms \<Rightarrow> (case ms of [] \<Rightarrow> throw IndexError | m0 # _ \<Rightarrow> lift (tmul be out1 m0)))))
          (\<lambda>out2. bindP (attr activation) (\<lambda>act. lift (act out2)))) w"
    using Inr p by (simp add: call_def call_masked_def bindP_assoc bindP_lift_Inr)
  show ?thesis
  proof (cases r)
    case (Inl e)
    then show ?thesis using Inr p R by (simp add: c bindP_def)
  next
    case (Inr out)
    have "call be inputs mask0 w = (post be (self w') mask0 out, w')"
      unfolding c using R Inr post_run [of be out mask0 w'] by (simp add: bindP_def [of "call_terms be x a"])
    then show ?thesis using \<open>unpack2 inputs = Inr p\<close> p R Inr by simp
  qed
qed

lemma fst_call:
  "fst (call be inputs mask0 w) =
     bindE (unpack2 inputs) (\<lambda>p.
     bindE (terms_pure be (K (self w)) (kernel (self w)) (snd p) (fst p))
       (post be (self w) mask0))"
proof (cases "unpack2 inputs")
  case (Inl e)
  then show ?thesis by (simp add: call_run bindE_Inl)
next
  case (Inr p)
  obtain r w' where R: "call_terms be (fst p) (snd p) w = (r, w')"
    by (cases "call_terms be (fst p) (snd p) w")
  have s: "self w' = self w"
    using frame_call_terms [of be "fst p" "snd p"] R by (auto simp: frame_def dest: spec [of _ w])
  have f: "terms_pure be (K (self w)) (kernel (self w)) (snd p) (fst p) = r"
    using fst_call_terms [of be "fst p" "snd p" w] R by simp
  show ?thesis
    using Inr R s f by (cases r) (simp_all add: call_run bindE_Inr bindE_Inl)
qed

subsection \<open>build\<close>

lemma build_too_few:
  assumes "length shp < 2"
  shows "build be shp w = (Inl AssertionError, w)"
  using assms by (simp add: build_def throw_def)

lemma build_ok:
  assumes "2 \<le> length shp" and "last_dim (shp ! 0) = Inr d"
    and "add_weight be [Some (K (self w)), d, Some (channels (self w))] ''kernel'' = Inr kern"
    and "use_bias (self w) \<longrightarrow> add_weight be [Some (channels (self w))] ''bias'' = Inr b"
  shows "build be shp w =
     (Inr (),
      w\<lparr>self := (self w)\<lparr>kernel := Some kern,
                            bias := (if use_bias (self w) then Some b else bias (self w)),
                            built := True\<rparr>,
        stdout := stdout w @ [shape_str be kern, ''HALLO CHEBCONV 2'']\<rparr>)"
  using assms
  by (simp add: build_def bindP_def lift_def ret_def attr_def attr_opt_def set_attr_def
      print_line_def)

lemma build_keeps_built:
  assumes "built (self w)"
  shows "built (self (snd (build be shp w)))"
  using assms
  by (simp add: build_def bindP_def lift_def ret_def throw_def attr_def attr_opt_def set_attr_def
      print_line_def split: sum.splits)

lemma build_success_built:
  assumes "fst (build be shp w) = Inr u"
  shows "built (self (snd (build be shp w)))"
  using assms
  by (simp add: build_def bindP_def lift_def ret_def throw_def attr_def attr_opt_def set_attr_def
      print_line_def split: sum.splits if_splits)

subsection \<open>Bias, mask and activation\<close>

lemma fst_call_activation:
  "fst (call be inputs mask0 w) =
   bindE (fst (call_masked be inputs mask0 w)) (activation (self w))"
proof -
  obtain r w' where R: "call_masked be inputs mask0 w = (r, w')"
    by (cases "call_masked be inputs mask0 w")
  have "self w' = self w"
    using frame_call_masked [of be inputs mask0] R by (auto simp: frame_def dest: spec [of _ w])
  then show ?thesis
    using R by (cases r) (simp_all add: call_def bindP_def attr_def lift_def bindE_def)
qed

lemma fst_call_masked_Some:
  "fst (call_masked be inputs (Some (m0 # ms)) w) =
   bindE (fst (call_masked be inputs None w)) (\<lambda>out. tmul be out m0)"
  by (simp add: call_masked_def bindP_def lift_def ret_def attr_def attr_opt_def bindE_def
      split: sum.splits prod.splits option.splits)

lemma call_masked_Some:
  "call_masked be inputs (Some (m0 # ms)) w =
   bindP (call_masked be inputs None) (\<lambda>out. lift (tmul be out m0)) w"
  by (simp add: call_masked_def bindP_def lift_def ret_def attr_def attr_opt_def
      split: sum.splits prod.splits option.splits)

lemma fl_mul_zero: "fl_mul v (Fin 0) = (if is_fin v then Fin 0 else NaN)"
  by (cases v) (simp_all add: is_fin_def)

lemma mask_row_zero:
  assumes "\<forall>v\<in>set mr. v = Fin 0" and "length mr = 1 \<or> length mr = length r"
  shows "length (mask_row r mr) = length r \<and>
         (\<forall>j<length r. mask_row r mr ! j = (if is_fin (r ! j) then Fin 0 else NaN))"
proof (cases "length mr = 1")
  case True
  then have "hd mr \<in> set mr" by (cases mr) simp_all
  with assms(1) have "hd mr = Fin 0" by blast
  then show ?thesis using True by (simp add: mask_row_def fl_mul_zero)
next
  case False
  with assms(2) have l: "length mr = length r" by simp
  have "\<forall>j<length r. mr ! j = Fin 0" using assms(1) l by simp
  then show ?thesis using False l by (simp add: mask_row_def fl_mul_zero)
qed

lemma mask_ok_append:
  assumes "mask_ok a m" and "mask_ok b n"
  shows "mask_ok (a @ b) (m @ n)"
  using assms by (simp add: mask_ok_def)

lemma mask_rows_concat:
  assumes "length q = length mq" and "list_all (\<lambda>(a, m). mask_ok a m) (zip q mq)"
  shows "mask_ok (concat q) (concat mq) \<and>
         concat (map2 (map2 mask_row) q mq) = map2 mask_row (concat q) (concat mq)"
  using assms
proof (induction q mq rule: list_induct2)
  case Nil
  show ?case by (simp add: mask_ok_def)
next
  case (Cons a q m mq)
  then have am: "mask_ok a m" and ih: "mask_ok (concat q) (concat mq)"
    "concat (map2 (map2 mask_row) q mq) = map2 mask_row (concat q) (concat mq)"
    by simp_all
  from am have l: "length a = length m" by (simp add: mask_ok_def)
  show ?case
    using mask_ok_append [OF am ih(1)] ih(2) l by simp
qed

lemma fd_mul_rows:
  assumes "fd_mul out m0 = Inr z"
  shows "mask_ok (node_rows out) (node_rows m0) \<and>
         node_rows z = map2 mask_row (node_rows out) (node_rows m0)"
proof (cases out)
  case (FVec v)
  with assms show ?thesis by (simp add: fd_mul_def)
next
  case (FMat a)
  with assms show ?thesis
    by (cases m0) (auto simp: fd_mul_def node_rows_def split: if_splits)
next
  case (FCube q)
  with assms show ?thesis
    by (cases m0) (auto simp: fd_mul_def node_rows_def mask_rows_concat split: if_splits)
qed

lemma node_rows_map: "node_rows (fd_map f t) = map (map f) (node_rows t)"
  by (cases t) (simp_all add: fd_map_def node_rows_def map_concat)

subsection \<open>The shapes of the terms\<close>

lemma bcast_rev_same: "bcast_rev s s = Some s"
  by (induction s) simp_all

lemma broadcast_same: "broadcast s s = Inr s"
  by (simp add: broadcast_def bcast_rev_same)

lemma shape_cheb_T:
  "cheb_T shape_be [b, n, n] [b, n, f] k = Inr [b, n, f] \<and>
   cheb_T shape_be [b, n, n] [b, n, f] (Suc k) = Inr [b, n, f]"
  by (induction k) (simp_all add: shape_be_def sh_modal_dot_def bindE_Inr broadcast_same)

lemma shape_cheb_term:
  assumes "int k < k0"
  shows "cheb_term shape_be k0 [nat k0, f, c] [b, n, n] [b, n, f] k = Inr [b, n, c]"
  using assms shape_cheb_T [of b n f k]
  by (simp add: cheb_term_def bindE_Inr shape_be_def sh_reparam_def sh_dot_def)

lemma shape_cheb_sum:
  assumes "int k < k0"
  shows "cheb_sum shape_be k0 [nat k0, f, c] [b, n, n] [b, n, f] k = Inr [b, n, c]"
  using assms
proof (induction k)
  case 0
  then show ?case by (simp add: shape_cheb_term)
next
  case (Suc k)
  then have "cheb_sum shape_be k0 [nat k0, f, c] [b, n, n] [b, n, f] k = Inr [b, n, c]"
    by simp
  moreover have "tadd shape_be [b, n, c] [b, n, c] = Inr [b, n, c]"
    by (simp add: shape_be_def broadcast_same)
  ultimately show ?case
    using Suc.prems by (simp add: shape_cheb_term bindE_Inr)
qed

lemma shape_terms:
  assumes "1 \<le> k0"
  shows "terms_pure shape_be k0 (Some [nat k0, f, c]) [b, n, n] [b, n, f] = Inr [b, n, c]"
proof (cases "k0 = 1")
  case True
  then show ?thesis
    by (simp add: terms_pure_def bindE_Inr shape_be_def sh_reparam_def sh_dot_def)
next
  case False
  with assms have "int (nat k0 - 1) < k0" by simp
  from shape_cheb_sum [OF this] False assms show ?thesis
    by (simp add: terms_pure_def)
qed

subsection \<open>A failing operator product\<close>

lemma call_operator_product_fails:
  assumes "1 < K (self w)" and "kernel (self w) = Some w0"
    and "chebyshev_reparam_weights be (K (self w)) w0 0 = Inr r0" and "dot be x r0 = Inr o0"
    and "modal_dot be a x = Inl e"
  shows "call be [x, a] mask0 w =
         (Inl e, w\<lparr>reparam_calls := reparam_calls w @ [(K (self w), w0, 0)]\<rparr>)"
  using assms
  by (simp add: call_run unpack2_def call_terms_def bindP_def lift_def attr_def reparam_self_run)

subsection \<open>Tabulated matrices\<close>




section \<open>The claims\<close>

text \<open>
  C1: for every \<open>K \<ge> 1\<close>, input \<open>x\<close>, operator \<open>a\<close> and weight tensor \<open>W\<close>, the output
  of \<open>call\<close> before bias, mask and activation is the sum over \<open>k = 0 .. K-1\<close> of
  \<open>T_k \<cdot> reparam(K, W, k)\<close>, with \<open>T_0 = x\<close>, \<open>T_1 = a \<times> x\<close> (present only when
  \<open>K > 1\<close>) and \<open>T_k = 2 \<cdot> (a \<times> T_{k-1}) - T_{k-2}\<close>; the loop with its rolled
  state \<open>T_0 := T_1\<close>, \<open>T_1 := T_2\<close> computes exactly this sum, and fails exactly when
  the sum does, with the same error.
\<close>

theorem call_terms_chebyshev_sum:
  assumes "1 \<le> K (self w)" and "kernel (self w) = Some w0"
  shows "fst (call_terms be x a w) =
         cheb_sum be (K (self w)) w0 a x (nat (K (self w)) - 1)"
proof (cases "K (self w) = 1")
  case True
  then show ?thesis
    using call_terms_one [OF True assms(2), of be x a]
    by (simp add: cheb_term_def bindE_Inr)
next
  case False
  with assms(1) have "1 < K (self w)" by simp
  from call_terms_many [OF this assms(2)] show ?thesis by simp
qed

theorem call_terms_chebyshev_sum_witness:
  "fst (call_terms (dense slice_reparam) (Mat [[1, 2], [3, 4]]) (Mat [[0, 1], [1, 0]]) W3) =
   Inr (Mat [[8, 15], [14, 13]])"
proof -
  have s: "cheb_sum (dense slice_reparam) 3
      (Cube [[[1, 0], [0, 1]], [[1, 1], [0, 2]], [[2, 0], [1, 1]]])
      (Mat [[0, 1], [1, 0]]) (Mat [[1, 2], [3, 4]]) 2 = Inr (Mat [[8, 15], [14, 13]])"
    by code_simp
  show ?thesis
    using call_terms_chebyshev_sum [of W3
        "Cube [[[1, 0], [0, 1]], [[1, 1], [0, 2]], [[2, 0], [1, 1]]]"
        "dense slice_reparam" "Mat [[1, 2], [3, 4]]" "Mat [[0, 1], [1, 0]]"] s
    by (simp add: W3_def new_world_def init_def)
qed

text \<open>
  C2: in a layer with \<open>K = 1\<close> the accumulated output is \<open>x \<cdot> reparam(1, W, 0)\<close> and
  nothing else, and what \<open>call\<close> returns is the activation of that product after the bias
  (when enabled) has been added and the mask (when given) multiplied in: a linear
  transform of \<open>x\<close> node by node. The operator has no influence: for any two operators
  \<open>a1\<close> and \<open>a2\<close> the calls on \<open>(x, a1)\<close> and \<open>(x, a2)\<close> end with the same result and the
  same state.
\<close>

theorem k1_operator_without_influence:
  assumes "K (self w) = 1"
  shows "call_terms be x a1 w = bindP (reparam_self be 0) (\<lambda>w0. lift (dot be x w0)) w \<and>
         call be [x, a1] mask0 w = call be [x, a2] mask0 w \<and>
         fst (call be [x, a1] mask0 w) =
           (case kernel (self w) of
              None \<Rightarrow> Inl AttributeError
            | Some w0 \<Rightarrow>
                bindE (chebyshev_reparam_weights be 1 w0 0) (\<lambda>r.
                bindE (dot be x r) (\<lambda>out.
                bindE (if use_bias (self w) then
                         (case bias (self w) of
                            None \<Rightarrow> Inl AttributeError
                          | Some b \<Rightarrow> bias_add be out b)
                       else Inr out) (\<lambda>out1.
                bindE (case mask0 of
                         None \<Rightarrow> Inr out1
                       | Some ms \<Rightarrow>
                           (case ms of [] \<Rightarrow> Inl IndexError | m0 # _ \<Rightarrow> tmul be out1 m0))
                  (activation (self w))))))"
proof (intro conjI)
  show "call_terms be x a1 w = bindP (reparam_self be 0) (\<lambda>w0. lift (dot be x w0)) w"
    using assms by (simp add: call_terms_le_one)
  show "call be [x, a1] mask0 w = call be [x, a2] mask0 w"
    using assms by (simp add: call_terms_le_one call_run unpack2_def)
  show "fst (call be [x, a1] mask0 w) =
           (case kernel (self w) of
              None \<Rightarrow> Inl AttributeError
            | Some w0 \<Rightarrow>
                bindE (chebyshev_reparam_weights be 1 w0 0) (\<lambda>r.
                bindE (dot be x r) (\<lambda>out.
                bindE (if use_bias (self w) then
                         (case bias (self w) of
                            None \<Rightarrow> Inl AttributeError
                          | Some b \<Rightarrow> bias_add be out b)
                       else Inr out) (\<lambda>out1.
                bindE (case mask0 of
                         None \<Rightarrow> Inr out1
                       | Some ms \<Rightarrow>
                           (case ms of [] \<Rightarrow> Inl IndexError | m0 # _ \<Rightarrow> tmul be out1 m0))
                  (activation (self w))))))"
    using assms
    by (cases "kernel (self w)")
       (simp_all add: fst_call unpack2_def bindE_Inr bindE_Inl terms_pure_def post_def [abs_def]
          bindE_assoc)
qed

theorem k1_operator_without_influence_witness:
  "call (dense slice_reparam) [Mat [[1, 2], [3, 4]], Mat [[0, 1], [1, 0]]] None W1 =
   call (dense slice_reparam) [Mat [[1, 2], [3, 4]], Mat [[7, 7, 7]]] None W1 \<and>
   fst (call (dense slice_reparam) [Mat [[1, 2], [3, 4]], Mat [[7, 7, 7]]] None W1) =
   Inr (Mat [[17, 30], [25, 42]])"
proof -
  have k: "K (self W1) = 1" by (simp add: W1_def new_world_def init_def)
  have v: "fst (call (dense slice_reparam) [Mat [[1, 2], [3, 4]], Mat [[7, 7, 7]]] None W1) =
      Inr (Mat [[17, 30], [25, 42]])"
    by code_simp
  from k1_operator_without_influence [OF k] v show ?thesis by blast
qed

text \<open>
  C3, as amended: the layer itself checks only the number of input shapes. \<open>build\<close>
  raises AssertionError, before any weight is created, when fewer than two shapes are
  given; otherwise it succeeds for every \<open>K\<close>, also \<open>K < 1\<close>, whenever the last dimension of
  the first shape can be read and \<open>add_weight\<close> creates the weights. \<open>call\<close> checks
  nothing: with \<open>K \<le> 1\<close> the operator is never read, so no operator raises an error; with
  \<open>K > 1\<close> an operator that the operator product rejects raises that product's error, after
  \<open>reparam(K, W, 0)\<close> has been invoked and the order-0 product computed.
\<close>

theorem validation_performed:
  "(length shp < 2 \<longrightarrow> build be shp w = (Inl AssertionError, w)) \<and>
   (2 \<le> length shp \<and> last_dim (shp ! 0) = Inr d \<and>
    add_weight be [Some (K (self w)), d, Some (channels (self w))] ''kernel'' = Inr kern \<and>
    (use_bias (self w) \<longrightarrow> add_weight be [Some (channels (self w))] ''bias'' = Inr b) \<longrightarrow>
      fst (build be shp w) = Inr ()) \<and>
   (K (self w) \<le> 1 \<longrightarrow> call be [x, a1] mask0 w = call be [x, a2] mask0 w) \<and>
   (1 < K (self w) \<and> kernel (self w) = Some w0 \<and>
    chebyshev_reparam_weights be (K (self w)) w0 0 = Inr r0 \<and> dot be x r0 = Inr o0 \<and>
    modal_dot be a x = Inl e \<longrightarrow>
      call be [x, a] mask0 w =
      (Inl e, w\<lparr>reparam_calls := reparam_calls w @ [(K (self w), w0, 0)]\<rparr>))"
proof (intro conjI impI)
  assume "length shp < 2"
  then show "build be shp w = (Inl AssertionError, w)" by (rule build_too_few)
next
  assume "2 \<le> length shp \<and> last_dim (shp ! 0) = Inr d \<and>
    add_weight be [Some (K (self w)), d, Some (channels (self w))] ''kernel'' = Inr kern \<and>
    (use_bias (self w) \<longrightarrow> add_weight be [Some (channels (self w))] ''bias'' = Inr b)"
  then show "fst (build be shp w) = Inr ()"
    using build_ok [of shp d be w kern b] by simp
next
  assume "K (self w) \<le> 1"
  then show "call be [x, a1] mask0 w = call be [x, a2] mask0 w"
    by (simp add: call_run unpack2_def call_terms_le_one)
next
  assume "1 < K (self w) \<and> kernel (self w) = Some w0 \<and>
    chebyshev_reparam_weights be (K (self w)) w0 0 = Inr r0 \<and> dot be x r0 = Inr o0 \<and>
    modal_dot be a x = Inl e"
  then show "call be [x, a] mask0 w =
      (Inl e, w\<lparr>reparam_calls := reparam_calls w @ [(K (self w), w0, 0)]\<rparr>)"
    using call_operator_product_fails [of w w0 be r0 x o0 a e mask0] by simp
qed

theorem validation_performed_witness:
  "build (dense slice_reparam) [[None, Some 2, Some 2]] W3 = (Inl AssertionError, W3) \<and>
   fst (build shape_be [[None, Some 3, Some 4], [None, Some 3, Some 3]]
          (new_world (init 6 0 Inr True))) = Inr () \<and>
   call (dense slice_reparam) [Mat [[1, 2], [3, 4]], Mat [[0, 1], [1, 0]]] None W1 =
   call (dense slice_reparam) [Mat [[1, 2], [3, 4]], Mat [[7, 7, 7]]] None W1 \<and>
   call (dense slice_reparam) [Mat [[1, 2], [3, 4]], Mat [[7, 7, 7]]] None W3 =
     (Inl (BackendError ''dot: inner dimensions''),
      W3\<lparr>reparam_calls := [(3, Cube [[[1, 0], [0, 1]], [[1, 1], [0, 2]], [[2, 0], [1, 1]]], 0)]\<rparr>)"
proof -
  have 1: "length [[None, Some 2, Some (2::int)]] < 2" by simp
  have 2: "2 \<le> length [[None, Some 3, Some 4], [None, Some 3, Some (3::int)]] \<and>
      last_dim ([[None, Some 3, Some 4], [None, Some 3, Some 3]] ! 0) = Inr (Some 4) \<and>
      add_weight shape_be [Some (K (self (new_world (init 6 0 Inr True)))), Some 4,
        Some (channels (self (new_world (init 6 0 Inr True))))] ''kernel'' = Inr [0, 4, 6] \<and>
      (use_bias (self (new_world (init 6 0 Inr True))) \<longrightarrow>
       add_weight shape_be [Some (channels (self (new_world (init 6 0 Inr True))))] ''bias'' =
       Inr [6])"
    by (simp add: last_dim_def new_world_def init_def shape_be_def sh_add_weight_def known_dim_def)
  have 3: "K (self W1) \<le> 1" by (simp add: W1_def new_world_def init_def)
  have 4: "1 < K (self W3) \<and>
      kernel (self W3) = Some (Cube [[[1, 0], [0, 1]], [[1, 1], [0, 2]], [[2, 0], [1, 1]]]) \<and>
      chebyshev_reparam_weights (dense slice_reparam) (K (self W3))
        (Cube [[[1, 0], [0, 1]], [[1, 1], [0, 2]], [[2, 0], [1, 1]]]) 0 = Inr (Mat [[1, 0], [0, 1]]) \<and>
      dot (dense slice_reparam) (Mat [[1, 2], [3, 4]]) (Mat [[1, 0], [0, 1]]) =
        Inr (Mat [[1, 2], [3, 4]]) \<and>
      modal_dot (dense slice_reparam) (Mat [[7, 7, 7]]) (Mat [[1, 2], [3, 4]]) =
        Inl (BackendError ''dot: inner dimensions'')"
    by code_simp
  have r: "reparam_calls W3 = []" "K (self W3) = 3"
    by (simp_all add: W3_def new_world_def init_def)
  from validation_performed [of "[[None, Some 2, Some 2]]" "dense slice_reparam" W3] 1
  have a: "build (dense slice_reparam) [[None, Some 2, Some 2]] W3 = (Inl AssertionError, W3)"
    by blast
  from validation_performed [of "[[None, Some 3, Some 4], [None, Some 3, Some 3]]" shape_be
      "new_world (init 6 0 Inr True)" "Some 4" "[0, 4, 6]" "[6]"] 2
  have b: "fst (build shape_be [[None, Some 3, Some 4], [None, Some 3, Some 3]]
          (new_world (init 6 0 Inr True))) = Inr ()"
    by blast
  from validation_performed [of _ "dense slice_reparam" W1 _ _ _ "Mat [[1, 2], [3, 4]]"
      "Mat [[0, 1], [1, 0]]" None "Mat [[7, 7, 7]]"] 3
  have c: "call (dense slice_reparam) [Mat [[1, 2], [3, 4]], Mat [[0, 1], [1, 0]]] None W1 =
      call (dense slice_reparam) [Mat [[1, 2], [3, 4]], Mat [[7, 7, 7]]] None W1"
    by blast
  from validation_performed [of _ "dense slice_reparam" W3 _ _ _ "Mat [[1, 2], [3, 4]]" _ None _
      "Cube [[[1, 0], [0, 1]], [[1, 1], [0, 2]], [[2, 0], [1, 1]]]" "Mat [[1, 0], [0, 1]]"
      "Mat [[1, 2], [3, 4]]" "Mat [[7, 7, 7]]" "BackendError ''dot: inner dimensions''"] 4
  have d: "call (dense slice_reparam) [Mat [[1, 2], [3, 4]], Mat [[7, 7, 7]]] None W3 =
     (Inl (BackendError ''dot: inner dimensions''),
      W3\<lparr>reparam_calls := reparam_calls W3 @
        [(K (self W3), Cube [[[1, 0], [0, 1]], [[1, 1], [0, 2]], [[2, 0], [1, 1]]], 0)]\<rparr>)"
    by blast
  from a b c d show ?thesis by (simp add: r)
qed

text \<open>
  C3 as stated fails: a layer with \<open>K = 0\<close> is constructed and built without an error, and
  a layer with \<open>K = 1\<close>, built and called with an operator of shape \<open>(2, 5, 7)\<close> for node
  features of shape \<open>(2, 3, 4)\<close>, returns an output of shape \<open>(2, 3, 6)\<close>.
\<close>

theorem configuration_errors_counterexample:
  "fst (build shape_be [[None, Some 3, Some 4], [None, Some 3, Some 3]]
          (new_world (init 6 0 Inr True))) = Inr () \<and>
   fst (build shape_be [[None, Some 3, Some 4], [None, Some 5, Some 7]]
          (new_world (init 6 1 Inr True))) = Inr () \<and>
   fst (call shape_be [[2, 3, 4], [2, 5, 7]] None
          (snd (build shape_be [[None, Some 3, Some 4], [None, Some 5, Some 7]]
                  (new_world (init 6 1 Inr True))))) = Inr [2, 3, 6]"
  by code_simp

text \<open>
  C4: for every \<open>K \<ge> 1\<close>, every number of channels and all \<open>B\<close>, \<open>N\<close>, \<open>F_in\<close>: a
  layer built for node features with \<open>F_in\<close> channels, called on an input of shape
  \<open>(B, N, F_in)\<close> and an operator of shape \<open>(B, N, N)\<close>, without a mask or with a mask of
  shape \<open>(B, N, 1)\<close>, returns a tensor of shape \<open>(B, N, channels)\<close>. The helper
  operations are those of the shape instance.
\<close>

theorem output_shape:
  assumes "1 \<le> k0" and "0 \<le> c0"
    and "mask0 = None \<or> (\<exists>ms. mask0 = Some ([b, n, 1] # ms))"
  shows "fst (build shape_be [[bd, Some (int n), Some (int f)], [bd', Some (int n), Some (int n)]]
               (new_world (init c0 k0 Inr ub))) = Inr () \<and>
         fst (call shape_be [[b, n, f], [b, n, n]] mask0
               (snd (build shape_be
                       [[bd, Some (int n), Some (int f)], [bd', Some (int n), Some (int n)]]
                       (new_world (init c0 k0 Inr ub))))) = Inr [b, n, nat c0]"
proof -
  let ?shp = "[[bd, Some (int n), Some (int f)], [bd', Some (int n), Some (int n)]]"
  let ?w = "new_world (init c0 k0 Inr ub) :: nat list world"
  have b: "build shape_be ?shp ?w =
     (Inr (),
      ?w\<lparr>self := (self ?w)\<lparr>kernel := Some [nat k0, f, nat c0],
                            bias := (if use_bias (self ?w) then Some [nat c0] else bias (self ?w)),
                            built := True\<rparr>,
        stdout := stdout ?w @ [shape_str shape_be [nat k0, f, nat c0], ''HALLO CHEBCONV 2'']\<rparr>)"
    using assms(1,2)
    by (intro build_ok [where d = "Some (int f)"])
       (simp_all add: new_world_def init_def last_dim_def shape_be_def sh_add_weight_def
          known_dim_def)
  have t: "terms_pure shape_be k0 (Some [nat k0, f, nat c0]) [b, n, n] [b, n, f] = Inr [b, n, nat c0]"
    by (rule shape_terms [OF assms(1)])
  have p: "post shape_be
            ((self ?w)\<lparr>kernel := Some [nat k0, f, nat c0],
                        bias := (if use_bias (self ?w) then Some [nat c0] else bias (self ?w)),
                        built := True\<rparr>) mask0 [b, n, nat c0] = Inr [b, n, nat c0]"
    using assms(3)
    by (auto simp: post_def bindE_Inr shape_be_def sh_bias_add_def broadcast_def new_world_def
        init_def)
  show ?thesis
    unfolding b using t p by (simp add: fst_call unpack2_def bindE_Inr new_world_def init_def)
qed

theorem output_shape_witness:
  "fst (call shape_be [[2, 3, 4], [2, 3, 3]] (Some [[2, 3, 1], [2, 3, 1]])
         (snd (build shape_be [[None, Some 3, Some 4], [None, Some 3, Some 3]]
                (new_world (init 6 5 Inr True))))) = Inr [2, 3, 6]"
  using output_shape [of 5 6 "Some [[2, 3, 1], [2, 3, 1]]" 2 3 None 4 None True]
  by simp

text \<open>
  C5, as amended: without a mask and with the identity activation, the output of \<open>call\<close>
  with \<open>use_bias\<close> enabled is \<open>bias_add\<close> of the output with \<open>use_bias\<close> disabled and
  the bias vector, for every input and weight tensor.
\<close>

theorem bias_enabled_is_bias_add:
  assumes "use_bias (self w)" and "bias (self w) = Some b" and "activation (self w) = Inr"
    and "fst (call be inputs None (w\<lparr>self := (self w)\<lparr>use_bias := False\<rparr>\<rparr>)) = Inr y0"
  shows "fst (call be inputs None w) = bias_add be y0 b"
proof -
  from assms(4) obtain p where p: "unpack2 inputs = Inr p"
    by (cases "unpack2 inputs") (simp_all add: fst_call bindE_Inl)
  let ?t = "terms_pure be (K (self w)) (kernel (self w)) (snd p) (fst p)"
  from assms(4) p obtain out where out: "?t = Inr out"
    by (cases ?t) (simp_all add: fst_call bindE_Inl bindE_Inr)
  from assms(3,4) p out have "y0 = out"
    by (simp add: fst_call bindE_Inr post_def)
  then show ?thesis
    using assms(1-3) p out by (simp add: fst_call bindE_Inr post_def bindE_ret)
qed

theorem bias_enabled_is_bias_add_witness:
  "fst (call (dense slice_reparam) [Mat [[1, 2], [3, 4]], Mat [[0, 1], [1, 0]]] None W1) =
   dn_bias_add (Mat [[7, 10], [15, 22]]) (Vec [10, 20])"
proof -
  have v: "fst (call (dense slice_reparam) [Mat [[1, 2], [3, 4]], Mat [[0, 1], [1, 0]]] None
             (W1\<lparr>self := (self W1)\<lparr>use_bias := False\<rparr>\<rparr>)) = Inr (Mat [[7, 10], [15, 22]])"
    by code_simp
  have h: "use_bias (self W1)" "bias (self W1) = Some (Vec [10, 20])" "activation (self W1) = Inr"
    by (simp_all add: W1_def new_world_def init_def)
  from bias_enabled_is_bias_add [OF h v] show ?thesis by (simp add: dense_def)
qed

text \<open>
  C5 as stated fails: with the activation \<open>max(0, v)\<close> the two outputs differ by
  \<open>[[7, 17], [3, 13]]\<close> for the bias \<open>[10, 20]\<close>, and under a mask of zeros they do not
  differ at all.
\<close>

theorem bias_difference_counterexample:
  "fst (call (dense slice_reparam) [Mat [[1, 2], [3, 4]], Mat [[0, 1], [1, 0]]] None W1r) =
     Inr (Mat [[7, 17], [3, 13]]) \<and>
   fst (call (dense slice_reparam) [Mat [[1, 2], [3, 4]], Mat [[0, 1], [1, 0]]] None
          (W1r\<lparr>self := (self W1r)\<lparr>use_bias := False\<rparr>\<rparr>)) =
     Inr (Mat [[0, 0], [0, 0]]) \<and>
   bias (self W1r) = Some (Vec [10, 20]) \<and>
   fst (call (dense slice_reparam) [Mat [[1, 2], [3, 4]], Mat [[0, 1], [1, 0]]]
          (Some [Mat [[0], [0]]]) W1) =
     Inr (Mat [[0, 0], [0, 0]]) \<and>
   fst (call (dense slice_reparam) [Mat [[1, 2], [3, 4]], Mat [[0, 1], [1, 0]]]
          (Some [Mat [[0], [0]]]) (W1\<lparr>self := (self W1)\<lparr>use_bias := False\<rparr>\<rparr>)) =
     Inr (Mat [[0, 0], [0, 0]]) \<and>
   bias (self W1) = Some (Vec [10, 20])"
  by code_simp

text \<open>
  C6, as amended: with a mask, \<open>call\<close> multiplies the output by \<open>mask[0]\<close> after the bias
  has been added and before the activation is applied. On dense matrices of floating-point
  values, in single and in batch mode, and with an activation applied entry by entry: if
  the mask is zero at node \<open>i\<close>, every entry of row \<open>i\<close> that is finite before the mask is
  exactly zero after it, and the entry returned is the activation of \<open>0\<close>; an entry that
  is infinite or NaN before the mask is NaN after it.
\<close>

theorem masked_node_zero_where_finite:
  assumes act: "activation (self w) = f_entrywise f"
    and ok: "fst (call (fdense rp) inputs (Some (m0 # ms)) w) = Inr y"
    and i: "i < length (node_rows m0)" and zero: "\<forall>v\<in>set (node_rows m0 ! i). v = Fin 0"
  shows "\<exists>out z. fst (call_masked (fdense rp) inputs None w) = Inr out \<and>
           fd_mul out m0 = Inr z \<and>
           fst (call_masked (fdense rp) inputs (Some (m0 # ms)) w) = Inr z \<and>
           f_entrywise f z = Inr y \<and>
           i < length (node_rows z) \<and>
           length (node_rows z ! i) = length (node_rows out ! i) \<and>
           length (node_rows y ! i) = length (node_rows out ! i) \<and>
           (\<forall>j<length (node_rows out ! i).
              node_rows z ! i ! j = (if is_fin (node_rows out ! i ! j) then Fin 0 else NaN) \<and>
              node_rows y ! i ! j = f (node_rows z ! i ! j))"
proof -
  from ok obtain z where z: "fst (call_masked (fdense rp) inputs (Some (m0 # ms)) w) = Inr z"
    and y: "f_entrywise f z = Inr y"
    unfolding fst_call_activation act by (elim bindE_InrE)
  from z obtain out where out: "fst (call_masked (fdense rp) inputs None w) = Inr out"
    and mul: "fd_mul out m0 = Inr z"
    unfolding fst_call_masked_Some by (elim bindE_InrE) (simp add: fdense_def)
  from fd_mul_rows [OF mul] have mok: "mask_ok (node_rows out) (node_rows m0)"
    and rows: "node_rows z = map2 mask_row (node_rows out) (node_rows m0)"
    by simp_all
  from mok have len: "length (node_rows out) = length (node_rows m0)"
    and all: "list_all (\<lambda>(r, mr). length mr = 1 \<or> length mr = length r)
               (zip (node_rows out) (node_rows m0))"
    by (simp_all add: mask_ok_def)
  have "(node_rows out ! i, node_rows m0 ! i) \<in> set (zip (node_rows out) (node_rows m0))"
    using len i by (metis in_set_zip length_zip min.idem nth_zip nth_mem fst_conv snd_conv)
  with all have c: "length (node_rows m0 ! i) = 1 \<or>
      length (node_rows m0 ! i) = length (node_rows out ! i)"
    by (auto simp: list_all_iff)
  have zi: "node_rows z ! i = mask_row (node_rows out ! i) (node_rows m0 ! i)"
    using rows len i by simp
  have lz: "length (node_rows z) = length (node_rows m0)" using rows len by simp
  note mr = mask_row_zero [OF zero c]
  have yr: "node_rows y = map (map f) (node_rows z)"
    using y by (auto simp: f_entrywise_def node_rows_map)
  have yi: "node_rows y ! i = map f (node_rows z ! i)"
    using yr lz i by simp
  show ?thesis
    using out mul z y lz i mr zi yi by (intro exI [of _ out] exI [of _ z]) simp
qed

theorem masked_node_zero_where_finite_witness:
  "fst (call (fdense fslice_reparam)
         [FCube [[[Fin 1, Fin 2], [Fin 3, Fin 4]]], FCube [[[Fin 0, Fin 1], [Fin 1, Fin 0]]]]
         (Some [FCube [[[Fin 1], [Fin 0]]]]) WF1) =
     Inr (FCube [[[Fin 18, Fin 31], [Fin 1, Fin 1]]]) \<and>
   (\<exists>z. fst (call_masked (fdense fslice_reparam)
         [FCube [[[Fin 1, Fin 2], [Fin 3, Fin 4]]], FCube [[[Fin 0, Fin 1], [Fin 1, Fin 0]]]]
         (Some [FCube [[[Fin 1], [Fin 0]]]]) WF1) = Inr z \<and>
        node_rows z ! 1 ! 0 = Fin 0 \<and> node_rows z ! 1 ! 1 = Fin 0)"
proof -
  let ?x = "[FCube [[[Fin 1, Fin 2], [Fin 3, Fin 4]]], FCube [[[Fin 0, Fin 1], [Fin 1, Fin 0]]]]"
  let ?m = "FCube [[[Fin 1], [Fin 0]]]"
  have a: "activation (self WF1) = f_entrywise (\<lambda>v. fl_add v (Fin 1))"
    by (simp add: WF1_def new_world_def init_def)
  have v: "fst (call (fdense fslice_reparam) ?x (Some [?m]) WF1) =
      Inr (FCube [[[Fin 18, Fin 31], [Fin 1, Fin 1]]])"
    by code_simp
  have o: "fst (call_masked (fdense fslice_reparam) ?x None WF1) =
      Inr (FCube [[[Fin 17, Fin 30], [Fin 25, Fin 42]]])"
    by code_simp
  have i: "1 < length (node_rows ?m)" and z: "\<forall>v\<in>set (node_rows ?m ! 1). v = Fin 0"
    by (simp_all add: node_rows_def)
  from masked_node_zero_where_finite [OF a v i z] o v show ?thesis
    by (auto simp: node_rows_def is_fin_def)
qed

text \<open>
  C6 as stated fails: an infinite input feature at node 0 makes row 0 of the output
  infinite, and the mask that is zero at node 0 turns it into NaN, not zero; the value
  returned there is the activation of NaN, not that of \<open>0\<close>.
\<close>

theorem masked_node_counterexample:
  "fst (call_masked (fdense fslice_reparam)
         [FCube [[[PInf, Fin 2], [Fin 3, Fin 4]]], FCube [[[Fin 0, Fin 1], [Fin 1, Fin 0]]]]
         (Some [FCube [[[Fin 0], [Fin 1]]]]) WF1) =
     Inr (FCube [[[NaN, NaN], [Fin 25, Fin 42]]]) \<and>
   fst (call (fdense fslice_reparam)
         [FCube [[[PInf, Fin 2], [Fin 3, Fin 4]]], FCube [[[Fin 0, Fin 1], [Fin 1, Fin 0]]]]
         (Some [FCube [[[Fin 0], [Fin 1]]]]) WF1) =
     Inr (FCube [[[NaN, NaN], [Fin 26, Fin 43]]]) \<and>
   fl_add (Fin 0) (Fin 1) = Fin 1"
  by code_simp




text \<open>
  C8: every forward call that returns has invoked the reparameterization afresh exactly
  once for each order \<open>k = 0 .. K-1\<close>, in this order, each time with \<open>K\<close>, the whole
  weight tensor and the order: these invocations are what the call appends to the record
  of invocations, whatever that record held before.
\<close>

theorem reparam_invoked_once_per_order:
  assumes "1 \<le> K (self w)" and "fst (call be inputs mask0 w) = Inr y"
  shows "\<exists>w0. kernel (self w) = Some w0 \<and>
           reparam_calls (snd (call be inputs mask0 w)) =
           reparam_calls w @ map (\<lambda>k. (K (self w), w0, int k)) [0..<nat (K (self w))]"
proof -
  from assms(2) obtain p where p: "unpack2 inputs = Inr p"
    by (cases "unpack2 inputs") (simp_all add: call_run)
  obtain r w' where R: "call_terms be (fst p) (snd p) w = (r, w')"
    by (cases "call_terms be (fst p) (snd p) w")
  from assms(2) p R obtain out where out: "r = Inr out"
    by (cases r) (simp_all add: call_run)
  have "kernel (self w) \<noteq> None"
    using call_terms_no_kernel [of w be "fst p" "snd p"] R out by auto
  then obtain w0 where w0: "kernel (self w) = Some w0" by auto
  from call_terms_calls [OF assms(1) w0, of be "fst p" "snd p" out] R out
  have "reparam_calls w' =
        reparam_calls w @ map (\<lambda>k. (K (self w), w0, int k)) [0..<nat (K (self w))]"
    by simp
  moreover have "snd (call be inputs mask0 w) = w'"
    using p R out by (simp add: call_run)
  ultimately show ?thesis using w0 by simp
qed

theorem reparam_invoked_once_per_order_witness:
  "reparam_calls (snd (call (dense slice_reparam)
       [Mat [[1, 2], [3, 4]], Mat [[0, 1], [1, 0]]] None W3)) =
   [(3, Cube [[[1, 0], [0, 1]], [[1, 1], [0, 2]], [[2, 0], [1, 1]]], 0),
    (3, Cube [[[1, 0], [0, 1]], [[1, 1], [0, 2]], [[2, 0], [1, 1]]], 1),
    (3, Cube [[[1, 0], [0, 1]], [[1, 1], [0, 2]], [[2, 0], [1, 1]]], 2)]"
proof -
  have k: "1 \<le> K (self W3)" by (simp add: W3_def new_world_def init_def)
  have v: "fst (call (dense slice_reparam)
       [Mat [[1, 2], [3, 4]], Mat [[0, 1], [1, 0]]] None W3) = Inr (Mat [[18, 35], [24, 33]])"
    by code_simp
  have u: "[0..<3] = [0, 1, 2::nat]" by code_simp
  from reparam_invoked_once_per_order [OF k v] show ?thesis
    by (simp add: W3_def new_world_def init_def u)
qed

text \<open>
  C9: a call of \<open>call\<close>, whatever its arguments and whether it returns or raises,
  leaves every attribute of the layer as it was (the weight tensor, the bias, the built
  flag and the rest) and prints nothing. A new layer is not built; \<open>build\<close> is what
  makes it built, and no \<open>build\<close> makes a built layer unbuilt again.
\<close>

theorem call_changes_no_attribute:
  "self (snd (call be inputs mask0 w)) = self w \<and>
   stdout (snd (call be inputs mask0 w)) = stdout w \<and>
   \<not> built (init c0 k0 act ub :: 't layer) \<and>
   (\<forall>u. fst (build be shp w) = Inr u \<longrightarrow> built (self (snd (build be shp w)))) \<and>
   (built (self w) \<longrightarrow> built (self (snd (build be shp w))))"
  using frame_call [of be inputs mask0] build_success_built [of be shp w] build_keeps_built [of w be shp]
  by (simp add: frame_def init_def)

theorem call_changes_no_attribute_witness:
  "self (snd (call (dense slice_reparam) [Mat [[1, 2], [3, 4]], Mat [[0, 1], [1, 0]]] None W3)) =
     self W3 \<and>
   built (self (snd (build (dense slice_reparam) [[None, Some 2, Some 2], [None, Some 2, Some 2]]
     (new_world (init 2 3 Inr True))))) \<and>
   built (self (snd (build (dense slice_reparam) [[None, Some 2, Some 2], [None, Some 2, Some 2]]
     W3)))"
proof -
  have b: "fst (build (dense slice_reparam) [[None, Some 2, Some 2], [None, Some 2, Some 2]]
     (new_world (init 2 3 Inr True))) = Inr ()"
    by code_simp
  have c: "built (self W3)" by (simp add: W3_def new_world_def init_def)
  from call_changes_no_attribute
         [of "dense slice_reparam" "[Mat [[1, 2], [3, 4]], Mat [[0, 1], [1, 0]]]" None W3]
       call_changes_no_attribute
         [of "dense slice_reparam" _ _ "new_world (init 2 3 Inr True)" _ _ _ _
            "[[None, Some 2, Some 2], [None, Some 2, Some 2]]"]
       call_changes_no_attribute
         [of "dense slice_reparam" _ _ W3 _ _ _ _
            "[[None, Some 2, Some 2], [None, Some 2, Some 2]]"]
       b c
  show ?thesis by blast
qed

text \<open>
  C10: when a mask argument is supplied, its first element \<open>mask[0]\<close> is multiplied into
  the output (the output after the bias, before the activation), and only it: the elements
  after it, such as a mask of the operator input, change neither the result nor the state.
\<close>

theorem only_first_mask_used:
  "call be inputs (Some (m0 # ms1)) w = call be inputs (Some (m0 # ms2)) w \<and>
   call be inputs (Some (m0 # ms1)) w =
     bindP (call_masked be inputs None) (\<lambda>out.
     bindP (lift (tmul be out m0)) (\<lambda>out'.
     bindP (attr activation) (\<lambda>act.
     lift (act out')))) w"
proof
  show "call be inputs (Some (m0 # ms1)) w = call be inputs (Some (m0 # ms2)) w"
    by (simp add: call_def call_masked_def)
  have "call_masked be inputs (Some (m0 # ms1)) =
        bindP (call_masked be inputs None) (\<lambda>out. lift (tmul be out m0))"
    by (rule ext) (rule call_masked_Some)
  then show "call be inputs (Some (m0 # ms1)) w =
     bindP (call_masked be inputs None) (\<lambda>out.
     bindP (lift (tmul be out m0)) (\<lambda>out'.
     bindP (attr activation) (\<lambda>act.
     lift (act out')))) w"
    by (simp add: call_def bindP_assoc)
qed

theorem only_first_mask_used_witness:
  "call (dense slice_reparam) [Mat [[1, 2], [3, 4]], Mat [[0, 1], [1, 0]]]
     (Some [Mat [[1], [0]], Mat [[5]]]) W1 =
   call (dense slice_reparam) [Mat [[1, 2], [3, 4]], Mat [[0, 1], [1, 0]]]
     (Some [Mat [[1], [0]]]) W1 \<and>
   fst (call (dense slice_reparam) [Mat [[1, 2], [3, 4]], Mat [[0, 1], [1, 0]]]
     (Some [Mat [[1], [0]], Mat [[5]]]) W1) = Inr (Mat [[17, 30], [0, 0]]) \<and>
   fst (call (dense slice_reparam) [Mat [[1, 2], [3, 4]], Mat [[0, 1], [1, 0]]] None W1) =
     Inr (Mat [[17, 30], [25, 42]])"
proof -
  have r: "fst (bindP (call_masked (dense slice_reparam)
                [Mat [[1, 2], [3, 4]], Mat [[0, 1], [1, 0]]] None) (\<lambda>out.
     bindP (lift (tmul (dense slice_reparam) out (Mat [[1], [0]]))) (\<lambda>out'.
     bindP (attr activation) (\<lambda>act.
     lift (act out')))) W1) = Inr (Mat [[17, 30], [0, 0]])"
    by code_simp
  have u: "fst (call (dense slice_reparam) [Mat [[1, 2], [3, 4]], Mat [[0, 1], [1, 0]]] None W1) =
     Inr (Mat [[17, 30], [25, 42]])"
    by code_simp
  note t = only_first_mask_used [of "dense slice_reparam"
      "[Mat [[1, 2], [3, 4]], Mat [[0, 1], [1, 0]]]" "Mat [[1], [0]]" "[Mat [[5]]]" W1 "[]"]
  from t have e1: "call (dense slice_reparam) [Mat [[1, 2], [3, 4]], Mat [[0, 1], [1, 0]]]
     (Some [Mat [[1], [0]], Mat [[5]]]) W1 =
   call (dense slice_reparam) [Mat [[1, 2], [3, 4]], Mat [[0, 1], [1, 0]]]
     (Some [Mat [[1], [0]]]) W1"
    by (rule conjunct1)
  have e2: "fst (call (dense slice_reparam) [Mat [[1, 2], [3, 4]], Mat [[0, 1], [1, 0]]]
     (Some [Mat [[1], [0]], Mat [[5]]]) W1) = Inr (Mat [[17, 30], [0, 0]])"
    unfolding conjunct2 [OF t] by (rule r)
  from e1 e2 u show ?thesis by (intro conjI)
qed

end
